theory Spec2Isabelle
  imports Main
begin

section \<open>Values on the wire\<close>

text \<open>
  The service of \<^verbatim>\<open>src/store/client/gethService.js\<close> handles values that
  arrive from the node over JSON-RPC. They are modelled as JSON values plus
  \<^verbatim>\<open>undefined\<close>. Numbers are restricted to integers; an object is an association
  list in which the first binding of a key is the visible one.
\<close>

datatype jsval =
    JUndefined
  | JNull
  | JBool bool
  | JNum int
  | JStr string
  | JArr "jsval list"
  | JObj "(string \<times> jsval) list"

text \<open>JavaScript's truthiness, the test behind \<^verbatim>\<open>!x\<close>.\<close>

fun truthy :: "jsval \<Rightarrow> bool" where
  "truthy JUndefined = False"
| "truthy JNull = False"
| "truthy (JBool b) = b"
| "truthy (JNum n) = (n \<noteq> 0)"
| "truthy (JStr s) = (s \<noteq> [])"
| "truthy (JArr xs) = True"
| "truthy (JObj kvs) = True"

text \<open>Destructuring \<^verbatim>\<open>const { k } = v\<close> throws a TypeError when \<open>v\<close> is
  \<^verbatim>\<open>null\<close> or \<^verbatim>\<open>undefined\<close>; on every other value it reads the property,
  which is \<^verbatim>\<open>undefined\<close> when the value has none of that name.\<close>

fun nullish :: "jsval \<Rightarrow> bool" where
  "nullish JUndefined = True"
| "nullish JNull = True"
| "nullish v = False"

fun get_prop :: "jsval \<Rightarrow> string \<Rightarrow> jsval" where
  "get_prop (JObj kvs) k = (case map_of kvs k of Some v \<Rightarrow> v | None \<Rightarrow> JUndefined)"
| "get_prop v k = JUndefined"

section \<open>NumericNormalizer\<close>

text \<open>Digits. \<open>digit_val\<close> reads one hexadecimal digit of either case.\<close>

definition hex_char :: "nat \<Rightarrow> char" where
  "hex_char d = ''0123456789abcdef'' ! d"

definition dec_char :: "nat \<Rightarrow> char" where
  "dec_char d = ''0123456789'' ! d"

definition digit_val :: "char \<Rightarrow> nat option" where
  "digit_val c =
     (if c \<in> set ''0123456789'' then Some (of_char c - 48)
      else if c \<in> set ''abcdef'' then Some (of_char c - 87)
      else if c \<in> set ''ABCDEF'' then Some (of_char c - 55)
      else None)"

fun parse_hex_acc :: "nat \<Rightarrow> string \<Rightarrow> nat option" where
  "parse_hex_acc acc [] = Some acc"
| "parse_hex_acc acc (c # cs) =
     (case digit_val c of
        None \<Rightarrow> None
      | Some d \<Rightarrow> parse_hex_acc (16 * acc + d) cs)"

definition parse_hex :: "string \<Rightarrow> nat option" where
  "parse_hex s = (if s = [] then None else parse_hex_acc 0 s)"

text \<open>The hexadecimal and the canonical decimal numeral of a natural number: no
  leading zero, a single \<open>0\<close> for zero.\<close>

function hex_of_nat :: "nat \<Rightarrow> string" where
  "hex_of_nat n =
     (if n < 16 then [hex_char n] else hex_of_nat (n div 16) @ [hex_char (n mod 16)])"
  by pat_completeness auto
termination
  by (relation "measure id") auto

declare hex_of_nat.simps [simp del]

function dec_of_nat :: "nat \<Rightarrow> string" where
  "dec_of_nat n =
     (if n < 10 then [dec_char n] else dec_of_nat (n div 10) @ [dec_char (n mod 10)])"
  by pat_completeness auto
termination
  by (relation "measure id") auto

declare dec_of_nat.simps [simp del]

text \<open>The wire encoding of a quantity: \<^verbatim>\<open>0x\<close> followed by its hexadecimal digits.\<close>

definition hex_encode :: "nat \<Rightarrow> string" where
  "hex_encode n = ''0x'' @ hex_of_nat n"

text \<open>\<^verbatim>\<open>const isHex = str => typeof str === 'string' && str.startsWith('0x')\<close>\<close>

fun isHex :: "jsval \<Rightarrow> bool" where
  "isHex (JStr s) = (take 2 s = ''0x'')"
| "isHex v = False"

text \<open>Modelled from the spec: \<^verbatim>\<open>new BigNumber(str).toString(10)\<close> belongs to the
  bignumber.js package, which is not among the source files. Section 4.5 of the
  specification says that a string prefixed to indicate hexadecimal is decoded with
  arbitrary-precision integer arithmetic and printed as a canonical decimal string. The
  specification is silent on a prefix that is not followed by hexadecimal digits only;
  the model prints \<^verbatim>\<open>NaN\<close> there.\<close>

definition hexToNumberString :: "string \<Rightarrow> string" where
  "hexToNumberString s =
     (case parse_hex (drop 2 s) of
        Some n \<Rightarrow> dec_of_nat n
      | None \<Rightarrow> ''NaN'')"

text \<open>\<^verbatim>\<open>const toNumberString = str => (isHex(str) ? hexToNumberString(str) : str)\<close>\<close>

fun toNumberString :: "jsval \<Rightarrow> jsval" where
  "toNumberString (JStr s) =
     (if isHex (JStr s) then JStr (hexToNumberString s) else JStr s)"
| "toNumberString v = v"

section \<open>The service and its collaborators\<close>

text \<open>What the service does to the outside is recorded as a list of effects. The
  action creators of \<^verbatim>\<open>./actions\<close> are kept as constructors holding their
  arguments. \<open>Number v\<close> stands for the result of JavaScript's \<^verbatim>\<open>Number(v)\<close>, a
  double that is not computed here. The \<^verbatim>\<open>dispatch\<close> function handed to
  \<^verbatim>\<open>start\<close> is known by a number.\<close>

type_synonym dispatch = nat

datatype jsnumber = Number jsval

datatype action =
    UpdateNetwork jsval
  | UpdateSyncMode jsval
  | UpdatePeerCount jsval
  | UpdateSyncing jsval jsval jsval jsval jsval
  | NewBlock jsnumber jsnumber
  | GethStarting
  | GethStarted
  | GethConnected
  | GethDisconnected
  | GethStopping
  | GethStopped
  | GethError jsval

datatype error = TypeError

datatype effect =
    Dispatch dispatch action
  | Rpc string jsval
  | GethSetConfig jsval
  | GethStart
  | GethStop
  | ConsoleLog string
  | UnhandledRejection jsval
  | UnhandledException error

text \<open>Function values. \<open>Proto m\<close> is the method object \<^verbatim>\<open>this.m\<close> found on the
  class; \<open>Arrow i m d\<close> is the arrow function created at allocation \<open>i\<close> whose body
  calls \<^verbatim>\<open>this.m(..., dispatch)\<close> with the captured dispatch \<open>d\<close>. Two function
  values are the same reference exactly when they are equal here.\<close>

datatype handler =
    OnStarting
  | OnStarted
  | OnConnect
  | OnStopping
  | OnStopped
  | OnDisconnect
  | OnError
  | OnNewHeadsSubscriptionResult
  | OnSyncingSubscriptionResult

datatype fn = Proto handler | Arrow nat handler dispatch

text \<open>Timer callbacks: the interval of \<^verbatim>\<open>start\<close> and the timeout of
  \<^verbatim>\<open>onConnect\<close>.\<close>

datatype timer = PeerCountTick dispatch | ConnectSettle dispatch

text \<open>What waits for the answer of an RPC call: the rest of the function after an
  \<^verbatim>\<open>await\<close>, the callback of a \<^verbatim>\<open>then\<close>, or nothing when the promise is
  dropped (\<^verbatim>\<open>eth_unsubscribe\<close>).\<close>

datatype cont =
    StartSubscriptionsAwait dispatch
  | SetLastBlockThen dispatch
  | NewHeadsSubscribeThen dispatch
  | SyncingSubscribeAwait dispatch
  | UpdatePeerCountAwait dispatch
  | Dropped

text \<open>The first three fields are those of the \<^verbatim>\<open>GethService\<close> instance (all
  \<^verbatim>\<open>undefined\<close> at first: the class has no constructor). The others are the state
  of the collaborators: the listeners registered on \<^verbatim>\<open>geth\<close> in registration order,
  the live timers, the RPC calls in flight, the allocation counter and the effects so far.\<close>

record world =
  peerCountInterval :: "nat option"
  syncingSubscriptionId :: jsval
  newHeadsSubscriptionId :: jsval
  listeners :: "(jsval \<times> fn) list"
  timers :: "(nat \<times> timer) list"
  pending :: "(nat \<times> cont) list"
  next_id :: nat
  effects :: "effect list"

definition init :: world where
  "init = \<lparr> peerCountInterval = None, syncingSubscriptionId = JUndefined,
            newHeadsSubscriptionId = JUndefined, listeners = [], timers = [],
            pending = [], next_id = 0, effects = [] \<rparr>"

definition emit_effect :: "effect \<Rightarrow> world \<Rightarrow> world" where
  "emit_effect e w = w\<lparr>effects := effects w @ [e]\<rparr>"

definition dispatch_action :: "dispatch \<Rightarrow> action \<Rightarrow> world \<Rightarrow> world" where
  "dispatch_action d a w = emit_effect (Dispatch d a) w"

text \<open>Modelled from the spec: \<^verbatim>\<open>geth\<close> comes from \<^verbatim>\<open>../../API\<close>, which is not
  among the source files. Section 6 of the specification gives it \<^verbatim>\<open>rpc\<close> (a single
  request whose answer arrives later), and \<^verbatim>\<open>on\<close> and \<^verbatim>\<open>removeListener\<close>, an
  event-registration surface keyed by event names or subscription tokens; a listener is
  removed by the reference it was registered with, the most recently added first. Keys
  are compared as values. \<open>geth_rpc\<close> records the call and what waits for its answer;
  \<open>geth_on key m d\<close> is \<^verbatim>\<open>geth.on(key, f)\<close> for a newly created arrow function
  \<open>f\<close> that calls the method \<open>m\<close> with the dispatch \<open>d\<close>.\<close>

definition geth_rpc :: "string \<Rightarrow> jsval \<Rightarrow> cont \<Rightarrow> world \<Rightarrow> world" where
  "geth_rpc m params k w =
     w\<lparr>effects := effects w @ [Rpc m params],
       pending := pending w @ [(next_id w, k)],
       next_id := Suc (next_id w)\<rparr>"

definition geth_on :: "jsval \<Rightarrow> handler \<Rightarrow> dispatch \<Rightarrow> world \<Rightarrow> world" where
  "geth_on key m d w =
     w\<lparr>listeners := listeners w @ [(key, Arrow (next_id w) m d)],
       next_id := Suc (next_id w)\<rparr>"

definition geth_removeListener :: "jsval \<Rightarrow> fn \<Rightarrow> world \<Rightarrow> world" where
  "geth_removeListener key f w =
     w\<lparr>listeners := rev (remove1 (key, f) (rev (listeners w)))\<rparr>"

text \<open>\<^verbatim>\<open>setInterval\<close> and \<^verbatim>\<open>setTimeout\<close> register a callback under a fresh
  identifier; \<^verbatim>\<open>clearInterval\<close> of \<^verbatim>\<open>undefined\<close> does nothing.\<close>

definition set_timer :: "timer \<Rightarrow> world \<Rightarrow> world" where
  "set_timer t w =
     w\<lparr>timers := timers w @ [(next_id w, t)], next_id := Suc (next_id w)\<rparr>"

definition drop_timer :: "nat \<Rightarrow> world \<Rightarrow> world" where
  "drop_timer i w = w\<lparr>timers := filter (\<lambda>(j, t). j \<noteq> i) (timers w)\<rparr>"

definition clearInterval :: "nat option \<Rightarrow> world \<Rightarrow> world" where
  "clearInterval h w = (case h of None \<Rightarrow> w | Some i \<Rightarrow> drop_timer i w)"

subsection \<open>The methods of \<^verbatim>\<open>GethService\<close>\<close>

text \<open>A method that can throw returns the error, if any, beside the state it leaves.\<close>

definition createListeners :: "dispatch \<Rightarrow> world \<Rightarrow> world" where
  "createListeners d w =
     geth_on (JStr ''error'') OnError d
      (geth_on (JStr ''disconnect'') OnDisconnect d
        (geth_on (JStr ''stopped'') OnStopped d
          (geth_on (JStr ''stopping'') OnStopping d
            (geth_on (JStr ''connect'') OnConnect d
              (geth_on (JStr ''started'') OnStarted d
                (geth_on (JStr ''starting'') OnStarting d w))))))"

definition removeListeners :: "world \<Rightarrow> world" where
  "removeListeners w =
     geth_removeListener (JStr ''error'') (Proto OnError)
      (geth_removeListener (JStr ''disconnect'') (Proto OnDisconnect)
        (geth_removeListener (JStr ''stopped'') (Proto OnStopped)
          (geth_removeListener (JStr ''stopping'') (Proto OnStopping)
            (geth_removeListener (JStr ''connect'') (Proto OnConnect)
              (geth_removeListener (JStr ''started'') (Proto OnStarted)
                (geth_removeListener (JStr ''starting'') (Proto OnStarting) w))))))"

text \<open>\<^verbatim>\<open>start(config, dispatch)\<close>; \<open>newConfig\<close> is what \<^verbatim>\<open>geth.getConfig()\<close>
  answers.\<close>

definition start :: "jsval \<Rightarrow> dispatch \<Rightarrow> jsval \<Rightarrow> world \<Rightarrow> error option \<times> world" where
  "start config d newConfig w =
     (let w1 = emit_effect GethStart (emit_effect (GethSetConfig config) w) in
      if nullish newConfig then (Some TypeError, w1)
      else
        let w2 = dispatch_action d (UpdateNetwork (get_prop newConfig ''network'')) w1;
            w3 = dispatch_action d (UpdateSyncMode (get_prop newConfig ''syncMode'')) w2;
            w4 = (set_timer (PeerCountTick d) w3)\<lparr>peerCountInterval := Some (next_id w3)\<rparr>
        in (None, createListeners d w4))"

definition unsubscribeNewHeadsSubscription :: "world \<Rightarrow> world" where
  "unsubscribeNewHeadsSubscription w =
     (if \<not> truthy (newHeadsSubscriptionId w) then w
      else
        (geth_removeListener (newHeadsSubscriptionId w) (Proto OnNewHeadsSubscriptionResult)
          (geth_rpc ''eth_unsubscribe'' (JArr [newHeadsSubscriptionId w]) Dropped w))
        \<lparr>newHeadsSubscriptionId := JNull\<rparr>)"

definition unsubscribeSyncingSubscription :: "world \<Rightarrow> world" where
  "unsubscribeSyncingSubscription w =
     (if \<not> truthy (syncingSubscriptionId w) then w
      else
        (geth_removeListener (syncingSubscriptionId w) (Proto OnSyncingSubscriptionResult)
          (geth_rpc ''eth_unsubscribe'' (JArr [syncingSubscriptionId w]) Dropped w))
        \<lparr>syncingSubscriptionId := JNull\<rparr>)"

text \<open>\<^verbatim>\<open>stop()\<close>. The logged text is the source's without its three leading
  non-ASCII signs.\<close>

definition stop :: "world \<Rightarrow> world" where
  "stop w =
     emit_effect (ConsoleLog ''done stop'')
      (removeListeners
        (unsubscribeNewHeadsSubscription
          (unsubscribeSyncingSubscription
            (clearInterval (peerCountInterval w) (emit_effect GethStop w)))))"

definition startNewHeadsSubscription :: "dispatch \<Rightarrow> world \<Rightarrow> world" where
  "startNewHeadsSubscription d w =
     geth_rpc ''eth_subscribe'' (JArr [JStr ''newHeads'']) (NewHeadsSubscribeThen d) w"

definition startSyncingSubscription :: "dispatch \<Rightarrow> world \<Rightarrow> world" where
  "startSyncingSubscription d w =
     geth_rpc ''eth_subscribe'' (JArr [JStr ''syncing'']) (SyncingSubscribeAwait d) w"

definition updatePeerCount :: "dispatch \<Rightarrow> world \<Rightarrow> world" where
  "updatePeerCount d w = geth_rpc ''net_peerCount'' JUndefined (UpdatePeerCountAwait d) w"

definition onNewHeadsSubscriptionResult ::
  "jsval \<Rightarrow> dispatch \<Rightarrow> world \<Rightarrow> error option \<times> world" where
  "onNewHeadsSubscriptionResult result d w =
     (if nullish result then (Some TypeError, w)
      else
        let subscriptionResult = get_prop result ''result'' in
        if \<not> truthy subscriptionResult then (None, w)
        else
          let hexBlockNumber = get_prop subscriptionResult ''number'';
              hexTimestamp = get_prop subscriptionResult ''timestamp'';
              blockNumber = Number (toNumberString hexBlockNumber);
              timestamp = Number (toNumberString hexTimestamp)
          in (None, dispatch_action d (NewBlock blockNumber timestamp) w))"

definition onSyncingSubscriptionResult ::
  "jsval \<Rightarrow> dispatch \<Rightarrow> world \<Rightarrow> error option \<times> world" where
  "onSyncingSubscriptionResult result d w =
     (if result = JBool False then
        (None, unsubscribeSyncingSubscription (startNewHeadsSubscription d w))
      else if result = JBool True then (None, w)
      else if nullish result then (Some TypeError, w)
      else
        let status = get_prop result ''status'' in
        if nullish status then (Some TypeError, w)
        else
          (None,
           dispatch_action d
             (UpdateSyncing (get_prop status ''StartingBlock'') (get_prop status ''CurrentBlock'')
                (get_prop status ''HighestBlock'') (get_prop status ''KnownStates'')
                (get_prop status ''PulledStates''))
             w))"

definition onStarting :: "dispatch \<Rightarrow> world \<Rightarrow> world" where
  "onStarting d w = dispatch_action d GethStarting w"

definition onStarted :: "dispatch \<Rightarrow> world \<Rightarrow> world" where
  "onStarted d w = dispatch_action d GethStarted w"

text \<open>\<^verbatim>\<open>onConnect\<close> dispatches and arms the 2000 ms timeout; \<open>connectSettled\<close> is the
  timeout's callback: \<^verbatim>\<open>setLastBlock()\<close>, then \<^verbatim>\<open>startSubscriptions()\<close> up to
  its \<^verbatim>\<open>await\<close>.\<close>

definition onConnect :: "dispatch \<Rightarrow> world \<Rightarrow> world" where
  "onConnect d w = set_timer (ConnectSettle d) (dispatch_action d GethConnected w)"

definition connectSettled :: "dispatch \<Rightarrow> world \<Rightarrow> world" where
  "connectSettled d w =
     geth_rpc ''eth_syncing'' JUndefined (StartSubscriptionsAwait d)
      (geth_rpc ''eth_getBlockByNumber'' (JArr [JStr ''latest'', JBool False])
        (SetLastBlockThen d) w)"

definition onDisconnect :: "dispatch \<Rightarrow> world \<Rightarrow> world" where
  "onDisconnect d w = dispatch_action d GethDisconnected w"

definition onStopping :: "dispatch \<Rightarrow> world \<Rightarrow> world" where
  "onStopping d w = dispatch_action d GethStopping w"

definition onStopped :: "dispatch \<Rightarrow> world \<Rightarrow> world" where
  "onStopped d w = dispatch_action d GethStopped w"

definition onError :: "jsval \<Rightarrow> dispatch \<Rightarrow> world \<Rightarrow> world" where
  "onError e d w = dispatch_action d (GethError e) w"

text \<open>The code that runs when the answer \<open>v\<close> of an RPC call arrives.\<close>

fun resume :: "cont \<Rightarrow> jsval \<Rightarrow> world \<Rightarrow> error option \<times> world" where
  "resume (StartSubscriptionsAwait d) v w =
     (if v = JBool False then (None, startNewHeadsSubscription d w)
      else (None, startSyncingSubscription d w))"
| "resume (SetLastBlockThen d) v w =
     (if nullish v then (Some TypeError, w)
      else
        (None,
         dispatch_action d
           (NewBlock (Number (toNumberString (get_prop v ''number'')))
              (Number (toNumberString (get_prop v ''timestamp''))))
           w))"
| "resume (NewHeadsSubscribeThen d) v w =
     (None, geth_on v OnNewHeadsSubscriptionResult d (w\<lparr>newHeadsSubscriptionId := v\<rparr>))"
| "resume (SyncingSubscribeAwait d) v w =
     (None, geth_on v OnSyncingSubscriptionResult d (w\<lparr>syncingSubscriptionId := v\<rparr>))"
| "resume (UpdatePeerCountAwait d) v w =
     (None, dispatch_action d (UpdatePeerCount (toNumberString v)) w)"
| "resume Dropped v w = (None, w)"

subsection \<open>Events from outside\<close>

text \<open>Calling a registered listener with the emitted value. An arrow function calls
  its method with the captured dispatch. A bare method object would run with the emitter
  as \<^verbatim>\<open>this\<close> and no dispatch argument, so it throws wherever it reaches
  \<^verbatim>\<open>dispatch\<close> or another method; the service never registers one.\<close>

fun call_listener :: "fn \<Rightarrow> jsval \<Rightarrow> world \<Rightarrow> error option \<times> world" where
  "call_listener (Arrow i OnStarting d) v w = (None, onStarting d w)"
| "call_listener (Arrow i OnStarted d) v w = (None, onStarted d w)"
| "call_listener (Arrow i OnConnect d) v w = (None, onConnect d w)"
| "call_listener (Arrow i OnStopping d) v w = (None, onStopping d w)"
| "call_listener (Arrow i OnStopped d) v w = (None, onStopped d w)"
| "call_listener (Arrow i OnDisconnect d) v w = (None, onDisconnect d w)"
| "call_listener (Arrow i OnError d) v w = (None, onError v d w)"
| "call_listener (Arrow i OnNewHeadsSubscriptionResult d) v w =
     onNewHeadsSubscriptionResult v d w"
| "call_listener (Arrow i OnSyncingSubscriptionResult d) v w =
     onSyncingSubscriptionResult v d w"
| "call_listener (Proto OnNewHeadsSubscriptionResult) v w =
     (if nullish v then (Some TypeError, w)
      else if \<not> truthy (get_prop v ''result'') then (None, w)
      else (Some TypeError, w))"
| "call_listener (Proto OnSyncingSubscriptionResult) v w =
     (if v = JBool True then (None, w) else (Some TypeError, w))"
| "call_listener (Proto m) v w = (Some TypeError, w)"

text \<open>An emission calls the listeners registered under the key in registration order
  and stops at the first one that throws.\<close>

fun call_listeners :: "fn list \<Rightarrow> jsval \<Rightarrow> world \<Rightarrow> error option \<times> world" where
  "call_listeners [] v w = (None, w)"
| "call_listeners (f # fs) v w =
     (case call_listener f v w of
        (None, w') \<Rightarrow> call_listeners fs v w'
      | (Some e, w') \<Rightarrow> (Some e, w'))"

definition listeners_of :: "jsval \<Rightarrow> world \<Rightarrow> fn list" where
  "listeners_of key w = map snd (filter (\<lambda>(k, f). k = key) (listeners w))"

definition geth_emit :: "jsval \<Rightarrow> jsval \<Rightarrow> world \<Rightarrow> error option \<times> world" where
  "geth_emit key v w = call_listeners (listeners_of key w) v w"

definition drop_pending :: "nat \<Rightarrow> world \<Rightarrow> world" where
  "drop_pending r w = w\<lparr>pending := filter (\<lambda>(j, k). j \<noteq> r) (pending w)\<rparr>"

text \<open>What can happen to the service: a call of \<^verbatim>\<open>start\<close> or \<^verbatim>\<open>stop\<close>, an
  emission on \<^verbatim>\<open>geth\<close>, a timer firing, an RPC call answered or failed. An error
  thrown while an answer is handled, and a failed call, end as an unhandled promise
  rejection: the source has no \<^verbatim>\<open>catch\<close>. The runtime of the page reports such a
  rejection; it stops no timer and changes nothing in the service.\<close>

datatype event =
    CallStart jsval dispatch jsval
  | CallStop
  | Emit jsval jsval
  | Fire nat
  | Resolve nat jsval
  | Reject nat jsval

fun step :: "event \<Rightarrow> world \<Rightarrow> error option \<times> world" where
  "step (CallStart config d newConfig) w = start config d newConfig w"
| "step CallStop w = (None, stop w)"
| "step (Emit key v) w = geth_emit key v w"
| "step (Fire i) w =
     (case map_of (timers w) i of
        None \<Rightarrow> (None, w)
      | Some (PeerCountTick d) \<Rightarrow> (None, updatePeerCount d w)
      | Some (ConnectSettle d) \<Rightarrow> (None, connectSettled d (drop_timer i w)))"
| "step (Resolve r v) w =
     (case map_of (pending w) r of
        None \<Rightarrow> (None, w)
      | Some k \<Rightarrow>
          (case resume k v (drop_pending r w) of
             (None, w') \<Rightarrow> (None, w')
           | (Some e, w') \<Rightarrow> (None, emit_effect (UnhandledException e) w')))"
| "step (Reject r e) w =
     (case map_of (pending w) r of
        None \<Rightarrow> (None, w)
      | Some k \<Rightarrow> (None, emit_effect (UnhandledRejection e) (drop_pending r w)))"

text \<open>A run of events; an error thrown to the outside does not undo what was done
  before it.\<close>

fun run :: "event list \<Rightarrow> world \<Rightarrow> world" where
  "run [] w = w"
| "run (e # es) w = run es (snd (step e w))"

subsection \<open>Reading a decimal numeral\<close>

text \<open>Used to state what the printed decimal string denotes.\<close>

fun parse_dec_acc :: "nat \<Rightarrow> string \<Rightarrow> nat" where
  "parse_dec_acc acc [] = acc"
| "parse_dec_acc acc (c # cs) = parse_dec_acc (10 * acc + (of_char c - 48)) cs"

subsection \<open>Sample inputs\<close>

definition sample_config :: jsval where
  "sample_config = JObj [(''network'', JStr ''main''), (''syncMode'', JStr ''fast'')]"

text \<open>States reached from the start: the service started; then connected, the settle
  timeout fired and the sync status queried; then subscribed to the sync feed under the
  id \<^verbatim>\<open>0x1\<close>; or subscribed to the header feed under that id.\<close>

definition sample_started :: world where
  "sample_started = run [CallStart sample_config 0 sample_config] init"

definition sample_detecting :: world where
  "sample_detecting = run [Emit (JStr ''connect'') JUndefined, Fire 8] sample_started"

definition sample_syncing :: world where
  "sample_syncing = run [Resolve 10 (JBool True), Resolve 11 (JStr ''0x1'')] sample_detecting"

definition sample_heads :: world where
  "sample_heads = run [Resolve 10 (JBool False), Resolve 11 (JStr ''0x1'')] sample_detecting"

definition sample_header :: jsval where
  "sample_header =
     JObj [(''result'', JObj [(''number'', JStr ''0x10''), (''timestamp'', JStr ''0x5'')])]"

definition sample_progress :: jsval where
  "sample_progress =
     JObj [(''status'',
       JObj [(''StartingBlock'', JStr ''0x64''), (''CurrentBlock'', JNum 150),
             (''HighestBlock'', JNum 200), (''KnownStates'', JNum 10),
             (''PulledStates'', JNum 5)])]"

subsection \<open>What can still subscribe\<close>

text \<open>Used to state when the two feeds exclude each other. A sync subscription can only
  come out of a detection: a settle timeout that has not fired, an \<^verbatim>\<open>eth_syncing\<close>
  query in flight or an \<^verbatim>\<open>eth_subscribe(["syncing"])\<close> call in flight; and a detection
  can only come out of a connect listener.\<close>

fun is_settle :: "timer \<Rightarrow> bool" where
  "is_settle (ConnectSettle d) = True"
| "is_settle t = False"

fun is_detection :: "cont \<Rightarrow> bool" where
  "is_detection (StartSubscriptionsAwait d) = True"
| "is_detection (SyncingSubscribeAwait d) = True"
| "is_detection k = False"

fun is_heads_request :: "cont \<Rightarrow> bool" where
  "is_heads_request (NewHeadsSubscribeThen d) = True"
| "is_heads_request k = False"

fun is_connect_fn :: "fn \<Rightarrow> bool" where
  "is_connect_fn (Arrow i OnConnect d) = True"
| "is_connect_fn f = False"

fun is_sync_fn :: "fn \<Rightarrow> bool" where
  "is_sync_fn (Arrow i OnSyncingSubscriptionResult d) = True"
| "is_sync_fn f = False"

definition detections :: "world \<Rightarrow> nat" where
  "detections w =
     length (filter (\<lambda>(i, t). is_settle t) (timers w)) +
     length (filter (\<lambda>(i, k). is_detection k) (pending w))"

definition heads_requests :: "world \<Rightarrow> nat" where
  "heads_requests w = length (filter (\<lambda>(i, k). is_heads_request k) (pending w))"

definition connect_listeners :: "world \<Rightarrow> nat" where
  "connect_listeners w = length (filter (\<lambda>(k, f). is_connect_fn f) (listeners w))"

definition sync_listeners :: "world \<Rightarrow> nat" where
  "sync_listeners w = length (filter (\<lambda>(k, f). is_sync_fn f) (listeners w))"

definition connects_keyed :: "world \<Rightarrow> bool" where
  "connects_keyed w =
     list_all (\<lambda>(k, f). \<not> is_connect_fn f \<or> k = JStr ''connect'') (listeners w)"

text \<open>A handle is active when it is truthy, the test of the unsubscribe helpers.
  \<open>feeds_exclusive b w\<close>: with \<open>b\<close> detections still to come from outside, at most
  one detection is possible; as long as one is possible nothing is subscribed or being
  subscribed; and while the sync handle is active the header handle is not, nor is a header
  subscription in flight.\<close>

definition feeds_idle :: "world \<Rightarrow> bool" where
  "feeds_idle w =
     (\<not> truthy (syncingSubscriptionId w) \<and> \<not> truthy (newHeadsSubscriptionId w) \<and>
      heads_requests w = 0 \<and> sync_listeners w = 0)"

definition feeds_exclusive :: "nat \<Rightarrow> world \<Rightarrow> bool" where
  "feeds_exclusive b w =
     (connects_keyed w \<and> detections w + b \<le> 1 \<and>
      (if 0 < detections w + b then feeds_idle w
       else truthy (syncingSubscriptionId w) \<longrightarrow>
            \<not> truthy (newHeadsSubscriptionId w) \<and> heads_requests w = 0))"

text \<open>\<open>one_feed c s w\<close>: the same with \<open>c\<close> connect events and \<open>s\<close> calls of
  \<^verbatim>\<open>start\<close> still to come.\<close>

definition one_feed :: "nat \<Rightarrow> nat \<Rightarrow> world \<Rightarrow> bool" where
  "one_feed c s w =
     (c \<le> 1 \<and> feeds_exclusive (if c = 0 then 0 else connect_listeners w + s) w)"

fun is_connect_event :: "event \<Rightarrow> bool" where
  "is_connect_event (Emit key v) = (key = JStr ''connect'')"
| "is_connect_event e = False"

fun is_start_event :: "event \<Rightarrow> bool" where
  "is_start_event (CallStart config d newConfig) = True"
| "is_start_event e = False"

subsection \<open>Fresh identifiers\<close>

text \<open>Every RPC call in flight was given an identifier below the allocation counter.\<close>

definition pending_fresh :: "world \<Rightarrow> bool" where
  "pending_fresh w = list_all (\<lambda>(i, k). i < next_id w) (pending w)"

section \<open>Properties of the normalizer\<close>

lemma digit_val_hex_digits: "\<forall>d\<in>set [0..<16]. digit_val (hex_char d) = Some d"
  by code_simp

lemma digit_val_hex_char: "d < 16 \<Longrightarrow> digit_val (hex_char d) = Some d"
  using digit_val_hex_digits by simp

lemma parse_hex_acc_append:
  "parse_hex_acc acc (xs @ ys) =
     (case parse_hex_acc acc xs of None \<Rightarrow> None | Some a \<Rightarrow> parse_hex_acc a ys)"
  by (induction xs arbitrary: acc) (auto split: option.splits)

lemma parse_hex_acc_hex_of_nat: "parse_hex_acc 0 (hex_of_nat n) = Some n"
proof (induction n rule: hex_of_nat.induct)
  case (1 n)
  show ?case
  proof (cases "n < 16")
    case True
    then show ?thesis
      by (subst hex_of_nat.simps) (simp add: digit_val_hex_char)
  next
    case False
    then have ih: "parse_hex_acc 0 (hex_of_nat (n div 16)) = Some (n div 16)"
      using "1.IH" by simp
    have "n mod 16 < 16" by simp
    then have d: "digit_val (hex_char (n mod 16)) = Some (n mod 16)"
      by (rule digit_val_hex_char)
    show ?thesis
      using False
      by (subst hex_of_nat.simps) (simp add: parse_hex_acc_append ih d)
  qed
qed

lemma hex_of_nat_nonempty: "hex_of_nat n \<noteq> []"
  by (subst hex_of_nat.simps) simp

lemma parse_hex_hex_of_nat: "parse_hex (hex_of_nat n) = Some n"
  by (simp add: parse_hex_def hex_of_nat_nonempty parse_hex_acc_hex_of_nat)

text \<open>The decimal numeral denotes the number it was made from and has no leading zero.\<close>

lemma parse_dec_acc_append:
  "parse_dec_acc acc (xs @ ys) = parse_dec_acc (parse_dec_acc acc xs) ys"
  by (induction xs arbitrary: acc) auto

lemma dec_char_digits: "\<forall>d\<in>set [0..<10]. of_char (dec_char d) - 48 = d"
  by code_simp

lemma dec_char_value: "d < 10 \<Longrightarrow> of_char (dec_char d) - 48 = d"
  using dec_char_digits by simp

lemma dec_of_nat_value: "parse_dec_acc 0 (dec_of_nat n) = n"
proof (induction n rule: dec_of_nat.induct)
  case (1 n)
  show ?case
  proof (cases "n < 10")
    case True
    then show ?thesis
      by (subst dec_of_nat.simps) (simp add: dec_char_value)
  next
    case False
    then have ih: "parse_dec_acc 0 (dec_of_nat (n div 10)) = n div 10"
      using "1.IH" by simp
    have d: "of_char (dec_char (n mod 10)) - 48 = n mod 10"
      by (rule dec_char_value) simp
    show ?thesis
      using False
      by (subst dec_of_nat.simps) (simp add: parse_dec_acc_append ih d)
  qed
qed

lemma dec_char_zero_digits: "\<forall>d\<in>set [0..<10]. dec_char d = CHR ''0'' \<longrightarrow> d = 0"
  by code_simp

lemma dec_of_nat_nonempty: "dec_of_nat n \<noteq> []"
  by (subst dec_of_nat.simps) simp

lemma dec_of_nat_no_leading_zero: "hd (dec_of_nat n) = CHR ''0'' \<Longrightarrow> n = 0"
proof (induction n rule: dec_of_nat.induct)
  case (1 n)
  show ?case
  proof (cases "n < 10")
    case True
    then have "dec_char n = CHR ''0''"
      using "1.prems" by (subst (asm) dec_of_nat.simps) simp
    then show ?thesis
      using True dec_char_zero_digits by simp
  next
    case False
    then have "hd (dec_of_nat (n div 10)) = CHR ''0''"
      using "1.prems" dec_of_nat_nonempty [of "n div 10"]
      by (subst (asm) dec_of_nat.simps) simp
    then have "n div 10 = 0"
      using "1.IH" False by simp
    then show ?thesis
      using False by simp
  qed
qed

text \<open>Claim C7. For every natural number \<open>n\<close>, however large, \<open>toNumberString\<close>
  applied to the \<^verbatim>\<open>0x\<close>-prefixed hexadecimal encoding of \<open>n\<close> is the canonical
  decimal string of \<open>n\<close>; applied to a string that does not start with \<^verbatim>\<open>0x\<close> it
  returns that string unchanged.\<close>

theorem toNumberString_hex_roundtrip:
  "(\<forall>n. toNumberString (JStr (hex_encode n)) = JStr (dec_of_nat n)) \<and>
   (\<forall>s. take 2 s \<noteq> ''0x'' \<longrightarrow> toNumberString (JStr s) = JStr s)"
  by (simp add: hex_encode_def hexToNumberString_def parse_hex_hex_of_nat)

theorem toNumberString_hex_roundtrip_witness:
  "toNumberString (JStr ''0x20000000000001'') = JStr ''9007199254740993'' \<and>
   take 2 ''1234'' \<noteq> ''0x'' \<and> toNumberString (JStr ''1234'') = JStr ''1234''"
proof -
  have e: "hex_encode 9007199254740993 = ''0x20000000000001''"
    by (simp add: hex_encode_def hex_of_nat.simps hex_char_def)
  have d: "dec_of_nat 9007199254740993 = ''9007199254740993''"
    by (simp add: dec_of_nat.simps dec_char_def)
  have "toNumberString (JStr (hex_encode 9007199254740993)) = JStr (dec_of_nat 9007199254740993)"
    using toNumberString_hex_roundtrip by blast
  moreover have "take 2 ''1234'' \<noteq> ''0x'' \<longrightarrow> toNumberString (JStr ''1234'') = JStr ''1234''"
    using toNumberString_hex_roundtrip by blast
  ultimately show ?thesis
    by (simp add: e d)
qed

section \<open>How the operations change the state\<close>

lemma emit_effect_fields [simp]:
  "peerCountInterval (emit_effect e w) = peerCountInterval w"
  "syncingSubscriptionId (emit_effect e w) = syncingSubscriptionId w"
  "newHeadsSubscriptionId (emit_effect e w) = newHeadsSubscriptionId w"
  "listeners (emit_effect e w) = listeners w"
  "timers (emit_effect e w) = timers w"
  "pending (emit_effect e w) = pending w"
  "next_id (emit_effect e w) = next_id w"
  "effects (emit_effect e w) = effects w @ [e]"
  by (simp_all add: emit_effect_def)

lemma dispatch_action_fields [simp]:
  "peerCountInterval (dispatch_action d a w) = peerCountInterval w"
  "syncingSubscriptionId (dispatch_action d a w) = syncingSubscriptionId w"
  "newHeadsSubscriptionId (dispatch_action d a w) = newHeadsSubscriptionId w"
  "listeners (dispatch_action d a w) = listeners w"
  "timers (dispatch_action d a w) = timers w"
  "pending (dispatch_action d a w) = pending w"
  "next_id (dispatch_action d a w) = next_id w"
  "effects (dispatch_action d a w) = effects w @ [Dispatch d a]"
  by (simp_all add: dispatch_action_def)

lemma geth_rpc_fields [simp]:
  "peerCountInterval (geth_rpc m ps k w) = peerCountInterval w"
  "syncingSubscriptionId (geth_rpc m ps k w) = syncingSubscriptionId w"
  "newHeadsSubscriptionId (geth_rpc m ps k w) = newHeadsSubscriptionId w"
  "listeners (geth_rpc m ps k w) = listeners w"
  "timers (geth_rpc m ps k w) = timers w"
  "pending (geth_rpc m ps k w) = pending w @ [(next_id w, k)]"
  "next_id (geth_rpc m ps k w) = Suc (next_id w)"
  "effects (geth_rpc m ps k w) = effects w @ [Rpc m ps]"
  by (simp_all add: geth_rpc_def)

lemma geth_on_fields [simp]:
  "peerCountInterval (geth_on key h d w) = peerCountInterval w"
  "syncingSubscriptionId (geth_on key h d w) = syncingSubscriptionId w"
  "newHeadsSubscriptionId (geth_on key h d w) = newHeadsSubscriptionId w"
  "listeners (geth_on key h d w) = listeners w @ [(key, Arrow (next_id w) h d)]"
  "timers (geth_on key h d w) = timers w"
  "pending (geth_on key h d w) = pending w"
  "next_id (geth_on key h d w) = Suc (next_id w)"
  "effects (geth_on key h d w) = effects w"
  by (simp_all add: geth_on_def)

lemma geth_removeListener_fields [simp]:
  "peerCountInterval (geth_removeListener key f w) = peerCountInterval w"
  "syncingSubscriptionId (geth_removeListener key f w) = syncingSubscriptionId w"
  "newHeadsSubscriptionId (geth_removeListener key f w) = newHeadsSubscriptionId w"
  "listeners (geth_removeListener key f w) = rev (remove1 (key, f) (rev (listeners w)))"
  "timers (geth_removeListener key f w) = timers w"
  "pending (geth_removeListener key f w) = pending w"
  "next_id (geth_removeListener key f w) = next_id w"
  "effects (geth_removeListener key f w) = effects w"
  by (simp_all add: geth_removeListener_def)

lemma set_timer_fields [simp]:
  "peerCountInterval (set_timer t w) = peerCountInterval w"
  "syncingSubscriptionId (set_timer t w) = syncingSubscriptionId w"
  "newHeadsSubscriptionId (set_timer t w) = newHeadsSubscriptionId w"
  "listeners (set_timer t w) = listeners w"
  "timers (set_timer t w) = timers w @ [(next_id w, t)]"
  "pending (set_timer t w) = pending w"
  "next_id (set_timer t w) = Suc (next_id w)"
  "effects (set_timer t w) = effects w"
  by (simp_all add: set_timer_def)

lemma drop_timer_fields [simp]:
  "peerCountInterval (drop_timer i w) = peerCountInterval w"
  "syncingSubscriptionId (drop_timer i w) = syncingSubscriptionId w"
  "newHeadsSubscriptionId (drop_timer i w) = newHeadsSubscriptionId w"
  "listeners (drop_timer i w) = listeners w"
  "timers (drop_timer i w) = filter (\<lambda>(j, t). j \<noteq> i) (timers w)"
  "pending (drop_timer i w) = pending w"
  "next_id (drop_timer i w) = next_id w"
  "effects (drop_timer i w) = effects w"
  by (simp_all add: drop_timer_def)

lemma clearInterval_fields [simp]:
  "peerCountInterval (clearInterval h w) = peerCountInterval w"
  "syncingSubscriptionId (clearInterval h w) = syncingSubscriptionId w"
  "newHeadsSubscriptionId (clearInterval h w) = newHeadsSubscriptionId w"
  "listeners (clearInterval h w) = listeners w"
  "timers (clearInterval h w) =
     (case h of None \<Rightarrow> timers w | Some i \<Rightarrow> filter (\<lambda>(j, t). j \<noteq> i) (timers w))"
  "pending (clearInterval h w) = pending w"
  "next_id (clearInterval h w) = next_id w"
  "effects (clearInterval h w) = effects w"
  by (simp_all add: clearInterval_def split: option.splits)

lemma drop_pending_fields [simp]:
  "peerCountInterval (drop_pending r w) = peerCountInterval w"
  "syncingSubscriptionId (drop_pending r w) = syncingSubscriptionId w"
  "newHeadsSubscriptionId (drop_pending r w) = newHeadsSubscriptionId w"
  "listeners (drop_pending r w) = listeners w"
  "timers (drop_pending r w) = timers w"
  "pending (drop_pending r w) = filter (\<lambda>(j, k). j \<noteq> r) (pending w)"
  "next_id (drop_pending r w) = next_id w"
  "effects (drop_pending r w) = effects w"
  by (simp_all add: drop_pending_def)

lemma unsubscribeSyncingSubscription_fields [simp]:
  "peerCountInterval (unsubscribeSyncingSubscription w) = peerCountInterval w"
  "syncingSubscriptionId (unsubscribeSyncingSubscription w) =
     (if truthy (syncingSubscriptionId w) then JNull else syncingSubscriptionId w)"
  "newHeadsSubscriptionId (unsubscribeSyncingSubscription w) = newHeadsSubscriptionId w"
  "listeners (unsubscribeSyncingSubscription w) =
     (if truthy (syncingSubscriptionId w)
      then rev (remove1 (syncingSubscriptionId w, Proto OnSyncingSubscriptionResult)
                 (rev (listeners w)))
      else listeners w)"
  "timers (unsubscribeSyncingSubscription w) = timers w"
  "pending (unsubscribeSyncingSubscription w) =
     (if truthy (syncingSubscriptionId w) then pending w @ [(next_id w, Dropped)]
      else pending w)"
  "next_id (unsubscribeSyncingSubscription w) =
     (if truthy (syncingSubscriptionId w) then Suc (next_id w) else next_id w)"
  "effects (unsubscribeSyncingSubscription w) =
     (if truthy (syncingSubscriptionId w)
      then effects w @ [Rpc ''eth_unsubscribe'' (JArr [syncingSubscriptionId w])]
      else effects w)"
  by (simp_all add: unsubscribeSyncingSubscription_def)

lemma unsubscribeNewHeadsSubscription_fields [simp]:
  "peerCountInterval (unsubscribeNewHeadsSubscription w) = peerCountInterval w"
  "syncingSubscriptionId (unsubscribeNewHeadsSubscription w) = syncingSubscriptionId w"
  "newHeadsSubscriptionId (unsubscribeNewHeadsSubscription w) =
     (if truthy (newHeadsSubscriptionId w) then JNull else newHeadsSubscriptionId w)"
  "listeners (unsubscribeNewHeadsSubscription w) =
     (if truthy (newHeadsSubscriptionId w)
      then rev (remove1 (newHeadsSubscriptionId w, Proto OnNewHeadsSubscriptionResult)
                 (rev (listeners w)))
      else listeners w)"
  "timers (unsubscribeNewHeadsSubscription w) = timers w"
  "pending (unsubscribeNewHeadsSubscription w) =
     (if truthy (newHeadsSubscriptionId w) then pending w @ [(next_id w, Dropped)]
      else pending w)"
  "next_id (unsubscribeNewHeadsSubscription w) =
     (if truthy (newHeadsSubscriptionId w) then Suc (next_id w) else next_id w)"
  "effects (unsubscribeNewHeadsSubscription w) =
     (if truthy (newHeadsSubscriptionId w)
      then effects w @ [Rpc ''eth_unsubscribe'' (JArr [newHeadsSubscriptionId w])]
      else effects w)"
  by (simp_all add: unsubscribeNewHeadsSubscription_def)

lemma removeListeners_fields [simp]:
  "peerCountInterval (removeListeners w) = peerCountInterval w"
  "syncingSubscriptionId (removeListeners w) = syncingSubscriptionId w"
  "newHeadsSubscriptionId (removeListeners w) = newHeadsSubscriptionId w"
  "timers (removeListeners w) = timers w"
  "pending (removeListeners w) = pending w"
  "next_id (removeListeners w) = next_id w"
  "effects (removeListeners w) = effects w"
  by (simp_all add: removeListeners_def)

section \<open>Stopping\<close>

lemma stop_fields [simp]:
  "peerCountInterval (stop w) = peerCountInterval w"
  "syncingSubscriptionId (stop w) =
     (if truthy (syncingSubscriptionId w) then JNull else syncingSubscriptionId w)"
  "newHeadsSubscriptionId (stop w) =
     (if truthy (newHeadsSubscriptionId w) then JNull else newHeadsSubscriptionId w)"
  by (simp_all add: stop_def)

lemma stop_ids_falsy [simp]:
  "\<not> truthy (syncingSubscriptionId (stop w))"
  "\<not> truthy (newHeadsSubscriptionId (stop w))"
  by simp_all

lemma stop_effects_idle:
  "\<not> truthy (syncingSubscriptionId w) \<Longrightarrow> \<not> truthy (newHeadsSubscriptionId w) \<Longrightarrow>
   effects (stop w) = effects w @ [GethStop, ConsoleLog ''done stop'']"
  by (simp add: stop_def)

lemma stop_pending_idle:
  "\<not> truthy (syncingSubscriptionId w) \<Longrightarrow> \<not> truthy (newHeadsSubscriptionId w) \<Longrightarrow>
   pending (stop w) = pending w"
  by (simp add: stop_def)

text \<open>Claim C9. Calling \<^verbatim>\<open>stop()\<close> twice in succession never throws, from any
  state, also one in which \<^verbatim>\<open>start\<close> was never called. The second call issues no
  RPC call: its only effects are the call of \<^verbatim>\<open>geth.stop()\<close> and the log line, and
  the calls in flight are those the first call left. Each unsubscribe helper changes
  nothing when its subscription id is not truthy.\<close>

theorem stop_twice_is_quiet:
  "fst (step CallStop w) = None \<and>
   fst (step CallStop (snd (step CallStop w))) = None \<and>
   effects (snd (step CallStop (snd (step CallStop w)))) =
     effects (snd (step CallStop w)) @ [GethStop, ConsoleLog ''done stop''] \<and>
   pending (snd (step CallStop (snd (step CallStop w)))) = pending (snd (step CallStop w)) \<and>
   (\<not> truthy (syncingSubscriptionId w) \<longrightarrow> unsubscribeSyncingSubscription w = w) \<and>
   (\<not> truthy (newHeadsSubscriptionId w) \<longrightarrow> unsubscribeNewHeadsSubscription w = w)"
  by (simp add: stop_effects_idle stop_pending_idle unsubscribeSyncingSubscription_def
      unsubscribeNewHeadsSubscription_def)

theorem stop_twice_is_quiet_witness:
  "effects (run [CallStop, CallStop] init) =
     [GethStop, ConsoleLog ''done stop'', GethStop, ConsoleLog ''done stop''] \<and>
   pending (run [CallStop, CallStop] init) = [] \<and>
   \<not> truthy (syncingSubscriptionId init) \<and> unsubscribeSyncingSubscription init = init \<and>
   \<not> truthy (newHeadsSubscriptionId init) \<and> unsubscribeNewHeadsSubscription init = init"
proof -
  have e: "effects (stop init) = [GethStop, ConsoleLog ''done stop'']"
    by (simp add: stop_effects_idle init_def)
  have p: "pending (stop init) = []"
    by (simp add: stop_pending_idle init_def)
  have i: "\<not> truthy (syncingSubscriptionId init)" "\<not> truthy (newHeadsSubscriptionId init)"
    by (simp_all add: init_def)
  show ?thesis
    using stop_twice_is_quiet [of init] e p i by simp
qed

section \<open>The header feed\<close>

text \<open>Claim C10. A newHeads subscription event whose \<^verbatim>\<open>result\<close> field is absent
  or otherwise falsy leaves the state as it is and dispatches nothing; the handler returns
  normally unless the event itself is \<^verbatim>\<open>null\<close> or \<^verbatim>\<open>undefined\<close>. Anything is
  dispatched only when the field is truthy, and then it is one block header update.\<close>

theorem onNewHeadsSubscriptionResult_falsy_result:
  "(\<not> truthy (get_prop ev ''result'') \<longrightarrow> snd (onNewHeadsSubscriptionResult ev d w) = w) \<and>
   (\<not> nullish ev \<and> \<not> truthy (get_prop ev ''result'') \<longrightarrow>
      onNewHeadsSubscriptionResult ev d w = (None, w)) \<and>
   (effects (snd (onNewHeadsSubscriptionResult ev d w)) \<noteq> effects w \<longrightarrow>
      truthy (get_prop ev ''result'')) \<and>
   (truthy (get_prop ev ''result'') \<longrightarrow>
      onNewHeadsSubscriptionResult ev d w =
        (None,
         dispatch_action d
           (NewBlock
             (Number (toNumberString (get_prop (get_prop ev ''result'') ''number'')))
             (Number (toNumberString (get_prop (get_prop ev ''result'') ''timestamp''))))
           w))"
proof -
  have n: "nullish ev \<Longrightarrow> get_prop ev ''result'' = JUndefined"
    by (cases ev) simp_all
  show ?thesis
    using n by (auto simp: onNewHeadsSubscriptionResult_def Let_def)
qed

lemmas eval_number_defs = hexToNumberString_def parse_hex_def digit_val_def
  dec_of_nat.simps dec_char_def

theorem onNewHeadsSubscriptionResult_falsy_result_witness:
  "\<not> nullish (JObj [(''subscription'', JStr ''0x1'')]) \<and>
   \<not> truthy (get_prop (JObj [(''subscription'', JStr ''0x1'')]) ''result'') \<and>
   onNewHeadsSubscriptionResult (JObj [(''subscription'', JStr ''0x1'')]) 0 init = (None, init) \<and>
   snd (onNewHeadsSubscriptionResult (JObj [(''result'', JNum 0)]) 0 init) = init \<and>
   truthy (get_prop
     (JObj [(''result'', JObj [(''number'', JStr ''0x10''), (''timestamp'', JStr ''0x5'')])])
     ''result'') \<and>
   effects (snd (onNewHeadsSubscriptionResult
     (JObj [(''result'', JObj [(''number'', JStr ''0x10''), (''timestamp'', JStr ''0x5'')])])
     0 init)) =
     [Dispatch 0 (NewBlock (Number (JStr ''16'')) (Number (JStr ''5'')))]"
  using onNewHeadsSubscriptionResult_falsy_result [of "JObj [(''subscription'', JStr ''0x1'')]" 0 init]
    onNewHeadsSubscriptionResult_falsy_result [of "JObj [(''result'', JNum 0)]" 0 init]
    onNewHeadsSubscriptionResult_falsy_result
      [of "JObj [(''result'', JObj [(''number'', JStr ''0x10''), (''timestamp'', JStr ''0x5'')])]"
        0 init]
  by (simp add: init_def eval_number_defs)

section \<open>Choosing and changing the feed\<close>

text \<open>Claim C6. When the \<^verbatim>\<open>eth_syncing\<close> query made after a connect is answered
  with \<^verbatim>\<open>false\<close>, the only call issued is one \<^verbatim>\<open>eth_subscribe(["newHeads"])\<close>; when
  it is answered with any other value, the only call issued is one
  \<^verbatim>\<open>eth_subscribe(["syncing"])\<close>.\<close>

theorem detection_subscribes_one_feed:
  assumes "map_of (pending w) r = Some (StartSubscriptionsAwait d)"
  shows "fst (step (Resolve r v) w) = None \<and>
    effects (snd (step (Resolve r v) w)) =
      effects w @
        [Rpc ''eth_subscribe''
           (JArr [JStr (if v = JBool False then ''newHeads'' else ''syncing'')])] \<and>
    pending (snd (step (Resolve r v) w)) =
      pending (drop_pending r w) @
        [(next_id w,
          if v = JBool False then NewHeadsSubscribeThen d else SyncingSubscribeAwait d)]"
  using assms
  by (simp add: startNewHeadsSubscription_def startSyncingSubscription_def)

theorem detection_subscribes_one_feed_witness:
  "map_of (pending sample_detecting) 10 = Some (StartSubscriptionsAwait 0) \<and>
   effects (snd (step (Resolve 10 (JBool False)) sample_detecting)) =
     effects sample_detecting @ [Rpc ''eth_subscribe'' (JArr [JStr ''newHeads''])] \<and>
   effects (snd (step (Resolve 10 (JBool True)) sample_detecting)) =
     effects sample_detecting @ [Rpc ''eth_subscribe'' (JArr [JStr ''syncing''])] \<and>
   effects (snd (step (Resolve 10 sample_progress) sample_detecting)) =
     effects sample_detecting @ [Rpc ''eth_subscribe'' (JArr [JStr ''syncing''])]"
proof -
  have h: "map_of (pending sample_detecting) 10 = Some (StartSubscriptionsAwait 0)"
    by code_simp
  have p: "sample_progress \<noteq> JBool False"
    by (simp add: sample_progress_def)
  show ?thesis
    using h p detection_subscribes_one_feed [OF h, of "JBool False"]
      detection_subscribes_one_feed [OF h, of "JBool True"]
      detection_subscribes_one_feed [OF h, of sample_progress]
    by simp
qed

text \<open>Claim C4. When the sync feed is active (its subscription id is truthy) and delivers
  \<^verbatim>\<open>false\<close>, the calls issued are \<^verbatim>\<open>eth_subscribe(["newHeads"])\<close> first and then
  \<^verbatim>\<open>eth_unsubscribe\<close> with the sync feed's id, and the sync handle is cleared. Once the
  subscribe call is answered with an id, the newHeads handle holds that id, a listener is
  registered under it and the sync handle is still cleared. The second hypothesis says
  that the allocation counter is not the identifier of a call in flight; it holds in every
  state reached from the initial one (\<open>reachable_next_id_unused\<close> below).\<close>

theorem sync_false_hands_off:
  assumes "truthy (syncingSubscriptionId w)"
    and "map_of (pending w) (next_id w) = None"
  shows "fst (onSyncingSubscriptionResult (JBool False) d w) = None \<and>
    effects (snd (onSyncingSubscriptionResult (JBool False) d w)) =
      effects w @
        [Rpc ''eth_subscribe'' (JArr [JStr ''newHeads'']),
         Rpc ''eth_unsubscribe'' (JArr [syncingSubscriptionId w])] \<and>
    syncingSubscriptionId (snd (onSyncingSubscriptionResult (JBool False) d w)) = JNull \<and>
    (\<forall>v. syncingSubscriptionId
           (snd (step (Resolve (next_id w) v)
             (snd (onSyncingSubscriptionResult (JBool False) d w)))) = JNull \<and>
         newHeadsSubscriptionId
           (snd (step (Resolve (next_id w) v)
             (snd (onSyncingSubscriptionResult (JBool False) d w)))) = v \<and>
         (v, Arrow (Suc (Suc (next_id w))) OnNewHeadsSubscriptionResult d)
           \<in> set (listeners
             (snd (step (Resolve (next_id w) v)
               (snd (onSyncingSubscriptionResult (JBool False) d w))))) \<and>
         effects
           (snd (step (Resolve (next_id w) v)
             (snd (onSyncingSubscriptionResult (JBool False) d w)))) =
           effects (snd (onSyncingSubscriptionResult (JBool False) d w)))"
  using assms
  by (simp add: onSyncingSubscriptionResult_def startNewHeadsSubscription_def map_add_def
      split: option.splits)

theorem sync_false_hands_off_witness:
  "truthy (syncingSubscriptionId sample_syncing) \<and>
   map_of (pending sample_syncing) (next_id sample_syncing) = None \<and>
   effects (snd (step (Emit (JStr ''0x1'') (JBool False)) sample_syncing)) =
     effects sample_syncing @
     [Rpc ''eth_subscribe'' (JArr [JStr ''newHeads'']),
      Rpc ''eth_unsubscribe'' (JArr [JStr ''0x1''])] \<and>
   syncingSubscriptionId
     (run [Emit (JStr ''0x1'') (JBool False), Resolve 13 (JStr ''0x2'')] sample_syncing) = JNull \<and>
   newHeadsSubscriptionId
     (run [Emit (JStr ''0x1'') (JBool False), Resolve 13 (JStr ''0x2'')] sample_syncing) =
     JStr ''0x2''"
proof -
  have h1: "truthy (syncingSubscriptionId sample_syncing)"
    by code_simp
  have h2: "map_of (pending sample_syncing) (next_id sample_syncing) = None"
    by code_simp
  have n: "next_id sample_syncing = 13"
    by code_simp
  have s: "syncingSubscriptionId sample_syncing = JStr ''0x1''"
    by code_simp
  have e: "geth_emit (JStr ''0x1'') (JBool False) sample_syncing =
      onSyncingSubscriptionResult (JBool False) 0 sample_syncing"
    by code_simp
  show ?thesis
    using h1 h2 sync_false_hands_off [OF h1 h2, of 0]
    by (simp add: n s e)
qed

section \<open>Sync progress\<close>

text \<open>Against claim C3 as stated. A sync status whose \<^verbatim>\<open>StartingBlock\<close> is the
  hexadecimal string \<^verbatim>\<open>0x64\<close> is dispatched with that string, not with the
  normalized \<^verbatim>\<open>100\<close>: the update differs from the one with every field passed through
  \<open>toNumberString\<close>. A payload that is neither boolean and has no \<^verbatim>\<open>status\<close> object
  makes the handler throw, and nothing is dispatched.\<close>

theorem sync_progress_not_normalized:
  "onSyncingSubscriptionResult sample_progress 0 init =
     (None,
      dispatch_action 0
        (UpdateSyncing (JStr ''0x64'') (JNum 150) (JNum 200) (JNum 10) (JNum 5)) init) \<and>
   toNumberString (JStr ''0x64'') = JStr ''100'' \<and>
   onSyncingSubscriptionResult sample_progress 0 init \<noteq>
     (None,
      dispatch_action 0
        (UpdateSyncing (toNumberString (JStr ''0x64'')) (toNumberString (JNum 150))
          (toNumberString (JNum 200)) (toNumberString (JNum 10)) (toNumberString (JNum 5)))
        init) \<and>
   onSyncingSubscriptionResult (JObj [(''syncing'', JBool True)]) 0 init =
     (Some TypeError, init)"
  by (simp add: onSyncingSubscriptionResult_def sample_progress_def Let_def eval_number_defs
      dispatch_action_def emit_effect_def init_def)

text \<open>Claim C3, amended. For every payload that is neither \<^verbatim>\<open>false\<close> nor
  \<^verbatim>\<open>true\<close> and whose \<^verbatim>\<open>status\<close> is neither \<^verbatim>\<open>null\<close> nor \<^verbatim>\<open>undefined\<close>,
  \<open>onSyncingSubscriptionResult\<close> reads the five fields from the status object and
  dispatches exactly one sync update that carries each value as it was read, without
  normalization, leaving the state as it is. For a field that is not a \<^verbatim>\<open>0x\<close>-prefixed
  string this is also what \<open>toNumberString\<close> gives.\<close>

theorem sync_progress_passed_through:
  assumes "result \<noteq> JBool False" and "result \<noteq> JBool True"
    and "\<not> nullish (get_prop result ''status'')"
  shows "onSyncingSubscriptionResult result d w =
     (None,
      dispatch_action d
        (UpdateSyncing
          (get_prop (get_prop result ''status'') ''StartingBlock'')
          (get_prop (get_prop result ''status'') ''CurrentBlock'')
          (get_prop (get_prop result ''status'') ''HighestBlock'')
          (get_prop (get_prop result ''status'') ''KnownStates'')
          (get_prop (get_prop result ''status'') ''PulledStates''))
        w) \<and>
    effects (snd (onSyncingSubscriptionResult result d w)) =
      effects w @
        [Dispatch d
          (UpdateSyncing
            (get_prop (get_prop result ''status'') ''StartingBlock'')
            (get_prop (get_prop result ''status'') ''CurrentBlock'')
            (get_prop (get_prop result ''status'') ''HighestBlock'')
            (get_prop (get_prop result ''status'') ''KnownStates'')
            (get_prop (get_prop result ''status'') ''PulledStates''))] \<and>
    (\<forall>k. \<not> isHex (get_prop (get_prop result ''status'') k) \<longrightarrow>
         toNumberString (get_prop (get_prop result ''status'') k) =
           get_prop (get_prop result ''status'') k)"
proof -
  have n: "\<not> nullish result"
    using assms(3) by (cases result) simp_all
  have t: "\<not> isHex v \<Longrightarrow> toNumberString v = v" for v
    by (cases v) simp_all
  show ?thesis
    using assms n t by (simp add: onSyncingSubscriptionResult_def Let_def)
qed

theorem sync_progress_passed_through_witness:
  "sample_progress \<noteq> JBool False \<and> sample_progress \<noteq> JBool True \<and>
   \<not> nullish (get_prop sample_progress ''status'') \<and>
   effects (snd (onSyncingSubscriptionResult sample_progress 0 init)) =
     [Dispatch 0 (UpdateSyncing (JStr ''0x64'') (JNum 150) (JNum 200) (JNum 10) (JNum 5))] \<and>
   toNumberString (get_prop (get_prop sample_progress ''status'') ''CurrentBlock'') = JNum 150"
proof -
  have h: "sample_progress \<noteq> JBool False" "sample_progress \<noteq> JBool True"
    "\<not> nullish (get_prop sample_progress ''status'')"
    by (simp_all add: sample_progress_def)
  show ?thesis
    using h sync_progress_passed_through [OF h, of 0 init]
    by (simp add: sample_progress_def init_def)
qed

section \<open>The peer count poller\<close>

text \<open>Against claim C8 as stated. In the started service the first tick issues the
  query; failing it adds one effect only, an unhandled promise rejection: the failure is
  not caught, and nothing is dispatched or logged.\<close>

theorem peer_count_failure_uncaught:
  "map_of (pending (run [Fire 0] sample_started)) 8 = Some (UpdatePeerCountAwait 0) \<and>
   effects (run [Fire 0, Reject 8 (JStr ''connection lost'')] sample_started) =
     effects (run [Fire 0] sample_started) @ [UnhandledRejection (JStr ''connection lost'')]"
  by code_simp

text \<open>Claim C8, amended. A failed \<^verbatim>\<open>net_peerCount\<close> query is not caught: it ends
  as an unhandled promise rejection and nothing else is done. The timers are left as they
  were, so the repeating timer is not terminated, and its next tick issues a new
  \<^verbatim>\<open>net_peerCount\<close> query.\<close>

theorem peer_count_failure_keeps_timer:
  assumes "map_of (pending w) r = Some (UpdatePeerCountAwait d)"
  shows "fst (step (Reject r e) w) = None \<and>
    effects (snd (step (Reject r e) w)) = effects w @ [UnhandledRejection e] \<and>
    timers (snd (step (Reject r e) w)) = timers w \<and>
    peerCountInterval (snd (step (Reject r e) w)) = peerCountInterval w \<and>
    (\<forall>i d'. map_of (timers w) i = Some (PeerCountTick d') \<longrightarrow>
       effects (snd (step (Fire i) (snd (step (Reject r e) w)))) =
         effects w @ [UnhandledRejection e, Rpc ''net_peerCount'' JUndefined] \<and>
       timers (snd (step (Fire i) (snd (step (Reject r e) w)))) = timers w)"
  using assms by (simp add: updatePeerCount_def)

theorem peer_count_failure_keeps_timer_witness:
  "map_of (pending (run [Fire 0] sample_started)) 8 = Some (UpdatePeerCountAwait 0) \<and>
   map_of (timers (run [Fire 0] sample_started)) 0 = Some (PeerCountTick 0) \<and>
   timers (snd (step (Reject 8 JNull) (run [Fire 0] sample_started))) =
     timers (run [Fire 0] sample_started) \<and>
   effects (snd (step (Fire 0) (snd (step (Reject 8 JNull) (run [Fire 0] sample_started))))) =
     effects (run [Fire 0] sample_started) @
       [UnhandledRejection JNull, Rpc ''net_peerCount'' JUndefined]"
proof -
  define w where "w = run [Fire 0] sample_started"
  have h: "map_of (pending w) 8 = Some (UpdatePeerCountAwait 0)"
    unfolding w_def by code_simp
  have t: "map_of (timers w) 0 = Some (PeerCountTick 0)"
    unfolding w_def by code_simp
  have "map_of (pending w) 8 = Some (UpdatePeerCountAwait 0) \<and>
   map_of (timers w) 0 = Some (PeerCountTick 0) \<and>
   timers (snd (step (Reject 8 JNull) w)) = timers w \<and>
   effects (snd (step (Fire 0) (snd (step (Reject 8 JNull) w)))) =
     effects w @ [UnhandledRejection JNull, Rpc ''net_peerCount'' JUndefined]"
    using h t peer_count_failure_keeps_timer [OF h, of JNull] by blast
  then show ?thesis
    unfolding w_def .
qed

section \<open>Listeners after \<^verbatim>\<open>stop\<close>\<close>

text \<open>In general: no call of \<^verbatim>\<open>stop\<close> removes a registered arrow function.\<close>

lemma arrow_listener_survives_stop:
  "(key, Arrow i h d) \<in> set (listeners w) \<Longrightarrow> (key, Arrow i h d) \<in> set (listeners (stop w))"
  by (simp add: stop_def removeListeners_def in_set_remove1)

text \<open>Claim C1, the code on an input where it fails. The service is subscribed to a
  feed under the id \<^verbatim>\<open>0x1\<close> and \<^verbatim>\<open>stop()\<close> completes. The listener registered
  for the feed is still registered, because \<^verbatim>\<open>removeListener\<close> was given the method
  object and not the arrow function that was registered. An event delivered afterwards
  is handled: a header is dispatched as a new block, a sync status as a sync update, and
  the value \<^verbatim>\<open>false\<close> on the sync feed issues \<^verbatim>\<open>eth_subscribe(["newHeads"])\<close>,
  whose answer then sets \<^verbatim>\<open>newHeadsSubscriptionId\<close>.\<close>

theorem events_after_stop_still_handled:
  "listeners (run [CallStop] sample_heads) = listeners sample_heads \<and>
   effects (run [CallStop, Emit (JStr ''0x1'') sample_header] sample_heads) =
     effects (run [CallStop] sample_heads) @
       [Dispatch 0 (NewBlock (Number (JStr ''16'')) (Number (JStr ''5'')))] \<and>
   effects (run [CallStop, Emit (JStr ''0x1'') sample_progress] sample_syncing) =
     effects (run [CallStop] sample_syncing) @
       [Dispatch 0 (UpdateSyncing (JStr ''0x64'') (JNum 150) (JNum 200) (JNum 10) (JNum 5))] \<and>
   effects (run [CallStop, Emit (JStr ''0x1'') (JBool False)] sample_syncing) =
     effects (run [CallStop] sample_syncing) @
       [Rpc ''eth_subscribe'' (JArr [JStr ''newHeads''])] \<and>
   newHeadsSubscriptionId (run [CallStop] sample_syncing) = JUndefined \<and>
   newHeadsSubscriptionId
     (run [CallStop, Emit (JStr ''0x1'') (JBool False), Resolve 14 (JStr ''0x2'')]
       sample_syncing) = JStr ''0x2''"
  by code_simp

text \<open>Claim C2, the code on an input where it fails. \<^verbatim>\<open>createListeners\<close> registers
  seven arrow functions; \<^verbatim>\<open>removeListeners\<close> passes the seven method objects, which
  are other references. After \<^verbatim>\<open>start\<close> and \<^verbatim>\<open>stop\<close> all seven listeners are
  still registered, and a lifecycle event emitted afterwards is dispatched.\<close>

theorem lifecycle_listeners_not_removed:
  "listeners sample_started =
     [(JStr ''starting'', Arrow 1 OnStarting 0), (JStr ''started'', Arrow 2 OnStarted 0),
      (JStr ''connect'', Arrow 3 OnConnect 0), (JStr ''stopping'', Arrow 4 OnStopping 0),
      (JStr ''stopped'', Arrow 5 OnStopped 0), (JStr ''disconnect'', Arrow 6 OnDisconnect 0),
      (JStr ''error'', Arrow 7 OnError 0)] \<and>
   listeners (run [CallStop] sample_started) = listeners sample_started \<and>
   effects (run [CallStop, Emit (JStr ''starting'') JUndefined] sample_started) =
     effects (run [CallStop] sample_started) @ [Dispatch 0 GethStarting] \<and>
   effects (run [CallStop, Emit (JStr ''error'') (JStr ''late'')] sample_started) =
     effects (run [CallStop] sample_started) @ [Dispatch 0 (GethError (JStr ''late''))]"
  by code_simp

section \<open>One feed at a time\<close>

subsection \<open>Counting in lists\<close>

lemma filter_remove1_absent: "\<not> P x \<Longrightarrow> filter P (remove1 x xs) = filter P xs"
  by (induction xs) auto

lemma count_after_removal:
  "\<not> P x \<Longrightarrow> length (filter P (rev (remove1 x (rev xs)))) = length (filter P xs)"
proof -
  assume "\<not> P x"
  then have "filter P (remove1 x (rev xs)) = filter P (rev xs)"
    by (rule filter_remove1_absent)
  then have "length (filter P (rev (remove1 x (rev xs)))) = length (filter P (rev xs))"
    by (simp add: rev_filter [symmetric])
  then show ?thesis
    by (simp add: rev_filter [symmetric])
qed

lemma list_all_after_removal: "list_all P xs \<Longrightarrow> list_all P (remove1 x (rev xs))"
proof -
  assume a: "list_all P xs"
  have "set (remove1 x (rev xs)) \<subseteq> set xs"
    using set_remove1_subset [of x "rev xs"] by simp
  then show ?thesis
    using a by (auto simp: list_all_iff)
qed

lemma count_filter_le: "length (filter P (filter Q xs)) \<le> length (filter P xs)"
  by (induction xs) auto

lemma count_drop_key:
  "map_of xs i = Some t \<Longrightarrow> P t \<Longrightarrow>
   length (filter (\<lambda>(j, t). P t) (filter (\<lambda>(j, t). j \<noteq> i) xs))
     < length (filter (\<lambda>(j, t). P t) xs)"
proof (induction xs)
  case Nil
  then show ?case by simp
next
  case (Cons x xs)
  obtain j u where x: "x = (j, u)"
    by (cases x)
  show ?case
  proof (cases "j = i")
    case True
    then have "u = t"
      using Cons.prems(1) x by simp
    moreover have "length (filter (\<lambda>(j, t). P t) (filter (\<lambda>(j, t). j \<noteq> i) xs))
        \<le> length (filter (\<lambda>(j, t). P t) xs)"
      by (rule count_filter_le)
    ultimately show ?thesis
      using True x Cons.prems(2) by simp
  next
    case False
    then have "map_of xs i = Some t"
      using Cons.prems(1) x by simp
    then show ?thesis
      using Cons.IH Cons.prems(2) False x by simp
  qed
qed

subsection \<open>What each operation does to the counts\<close>

lemma is_connect_fn_Arrow [simp]: "is_connect_fn (Arrow i h d) = (h = OnConnect)"
  by (cases h) simp_all

lemma is_sync_fn_Arrow [simp]: "is_sync_fn (Arrow i h d) = (h = OnSyncingSubscriptionResult)"
  by (cases h) simp_all

lemmas measure_defs = detections_def heads_requests_def connect_listeners_def
  sync_listeners_def connects_keyed_def

lemma emit_effect_measures [simp]:
  "detections (emit_effect e w) = detections w"
  "heads_requests (emit_effect e w) = heads_requests w"
  "connect_listeners (emit_effect e w) = connect_listeners w"
  "sync_listeners (emit_effect e w) = sync_listeners w"
  "connects_keyed (emit_effect e w) = connects_keyed w"
  by (simp_all add: measure_defs)

lemma dispatch_action_measures [simp]:
  "detections (dispatch_action d a w) = detections w"
  "heads_requests (dispatch_action d a w) = heads_requests w"
  "connect_listeners (dispatch_action d a w) = connect_listeners w"
  "sync_listeners (dispatch_action d a w) = sync_listeners w"
  "connects_keyed (dispatch_action d a w) = connects_keyed w"
  by (simp_all add: measure_defs)

lemma geth_rpc_measures [simp]:
  "detections (geth_rpc m ps k w) = detections w + (if is_detection k then 1 else 0)"
  "heads_requests (geth_rpc m ps k w) = heads_requests w + (if is_heads_request k then 1 else 0)"
  "connect_listeners (geth_rpc m ps k w) = connect_listeners w"
  "sync_listeners (geth_rpc m ps k w) = sync_listeners w"
  "connects_keyed (geth_rpc m ps k w) = connects_keyed w"
  by (simp_all add: measure_defs)

lemma geth_on_measures [simp]:
  "detections (geth_on key h d w) = detections w"
  "heads_requests (geth_on key h d w) = heads_requests w"
  "connect_listeners (geth_on key h d w) = connect_listeners w + (if h = OnConnect then 1 else 0)"
  "sync_listeners (geth_on key h d w) =
     sync_listeners w + (if h = OnSyncingSubscriptionResult then 1 else 0)"
  "connects_keyed (geth_on key h d w) =
     (connects_keyed w \<and> (h \<noteq> OnConnect \<or> key = JStr ''connect''))"
  by (simp_all add: measure_defs)

lemma geth_removeListener_measures [simp]:
  "detections (geth_removeListener key (Proto h) w) = detections w"
  "heads_requests (geth_removeListener key (Proto h) w) = heads_requests w"
  "connect_listeners (geth_removeListener key (Proto h) w) = connect_listeners w"
  "sync_listeners (geth_removeListener key (Proto h) w) = sync_listeners w"
  by (simp_all add: measure_defs count_after_removal)

lemma geth_removeListener_keyed [simp]:
  "connects_keyed w \<Longrightarrow> connects_keyed (geth_removeListener key f w)"
  by (simp add: connects_keyed_def list_all_after_removal)

lemma set_timer_measures [simp]:
  "detections (set_timer t w) = detections w + (if is_settle t then 1 else 0)"
  "heads_requests (set_timer t w) = heads_requests w"
  "connect_listeners (set_timer t w) = connect_listeners w"
  "sync_listeners (set_timer t w) = sync_listeners w"
  "connects_keyed (set_timer t w) = connects_keyed w"
  by (simp_all add: measure_defs)

lemma drop_timer_measures [simp]:
  "detections (drop_timer i w) \<le> detections w"
  "heads_requests (drop_timer i w) = heads_requests w"
  "connect_listeners (drop_timer i w) = connect_listeners w"
  "sync_listeners (drop_timer i w) = sync_listeners w"
  "connects_keyed (drop_timer i w) = connects_keyed w"
  by (simp_all add: measure_defs count_filter_le del: filter_filter)

lemma drop_timer_settle:
  "map_of (timers w) i = Some (ConnectSettle d) \<Longrightarrow> detections (drop_timer i w) < detections w"
  using count_drop_key [of "timers w" i "ConnectSettle d" is_settle]
  by (simp add: detections_def del: filter_filter)

lemma clearInterval_measures [simp]:
  "detections (clearInterval h w) \<le> detections w"
  "heads_requests (clearInterval h w) = heads_requests w"
  "connect_listeners (clearInterval h w) = connect_listeners w"
  "sync_listeners (clearInterval h w) = sync_listeners w"
  "connects_keyed (clearInterval h w) = connects_keyed w"
  by (simp_all add: clearInterval_def split: option.splits)

lemma drop_pending_measures [simp]:
  "detections (drop_pending r w) \<le> detections w"
  "heads_requests (drop_pending r w) \<le> heads_requests w"
  "connect_listeners (drop_pending r w) = connect_listeners w"
  "sync_listeners (drop_pending r w) = sync_listeners w"
  "connects_keyed (drop_pending r w) = connects_keyed w"
  by (simp_all add: measure_defs count_filter_le del: filter_filter)

lemma drop_pending_detection:
  "map_of (pending w) r = Some k \<Longrightarrow> is_detection k \<Longrightarrow>
   detections (drop_pending r w) < detections w"
  using count_drop_key [of "pending w" r k is_detection]
  by (simp add: detections_def del: filter_filter)

lemma feeds_exclusive_frame:
  assumes "feeds_exclusive b w"
    and "connects_keyed w'"
    and "detections w' + b' \<le> detections w + b"
    and "heads_requests w' \<le> heads_requests w"
    and "sync_listeners w' \<le> sync_listeners w"
    and "truthy (syncingSubscriptionId w') \<longrightarrow> truthy (syncingSubscriptionId w)"
    and "truthy (newHeadsSubscriptionId w') \<longrightarrow> truthy (newHeadsSubscriptionId w)"
  shows "feeds_exclusive b' w'"
  using assms by (auto simp: feeds_exclusive_def feeds_idle_def split: if_splits)

lemma handle_update_measures [simp]:
  "detections (w\<lparr>syncingSubscriptionId := v\<rparr>) = detections w"
  "heads_requests (w\<lparr>syncingSubscriptionId := v\<rparr>) = heads_requests w"
  "connect_listeners (w\<lparr>syncingSubscriptionId := v\<rparr>) = connect_listeners w"
  "sync_listeners (w\<lparr>syncingSubscriptionId := v\<rparr>) = sync_listeners w"
  "connects_keyed (w\<lparr>syncingSubscriptionId := v\<rparr>) = connects_keyed w"
  "detections (w\<lparr>newHeadsSubscriptionId := v\<rparr>) = detections w"
  "heads_requests (w\<lparr>newHeadsSubscriptionId := v\<rparr>) = heads_requests w"
  "connect_listeners (w\<lparr>newHeadsSubscriptionId := v\<rparr>) = connect_listeners w"
  "sync_listeners (w\<lparr>newHeadsSubscriptionId := v\<rparr>) = sync_listeners w"
  "connects_keyed (w\<lparr>newHeadsSubscriptionId := v\<rparr>) = connects_keyed w"
  "detections (w\<lparr>peerCountInterval := h\<rparr>) = detections w"
  "heads_requests (w\<lparr>peerCountInterval := h\<rparr>) = heads_requests w"
  "connect_listeners (w\<lparr>peerCountInterval := h\<rparr>) = connect_listeners w"
  "sync_listeners (w\<lparr>peerCountInterval := h\<rparr>) = sync_listeners w"
  "connects_keyed (w\<lparr>peerCountInterval := h\<rparr>) = connects_keyed w"
  by (simp_all add: measure_defs)

lemma unsubscribeSyncingSubscription_measures [simp]:
  "detections (unsubscribeSyncingSubscription w) = detections w"
  "heads_requests (unsubscribeSyncingSubscription w) = heads_requests w"
  "connect_listeners (unsubscribeSyncingSubscription w) = connect_listeners w"
  "sync_listeners (unsubscribeSyncingSubscription w) = sync_listeners w"
  "connects_keyed w \<Longrightarrow> connects_keyed (unsubscribeSyncingSubscription w)"
  by (simp_all add: unsubscribeSyncingSubscription_def)

lemma unsubscribeNewHeadsSubscription_measures [simp]:
  "detections (unsubscribeNewHeadsSubscription w) = detections w"
  "heads_requests (unsubscribeNewHeadsSubscription w) = heads_requests w"
  "connect_listeners (unsubscribeNewHeadsSubscription w) = connect_listeners w"
  "sync_listeners (unsubscribeNewHeadsSubscription w) = sync_listeners w"
  "connects_keyed w \<Longrightarrow> connects_keyed (unsubscribeNewHeadsSubscription w)"
  by (simp_all add: unsubscribeNewHeadsSubscription_def)

lemma removeListeners_measures [simp]:
  "detections (removeListeners w) = detections w"
  "heads_requests (removeListeners w) = heads_requests w"
  "connect_listeners (removeListeners w) = connect_listeners w"
  "sync_listeners (removeListeners w) = sync_listeners w"
  "connects_keyed w \<Longrightarrow> connects_keyed (removeListeners w)"
  by (simp_all add: removeListeners_def)

lemma stop_detections [simp]: "detections (stop w) \<le> detections w"
  using clearInterval_measures(1) [of "peerCountInterval w" "emit_effect GethStop w"]
  by (simp add: stop_def)

lemma stop_measures [simp]:
  "heads_requests (stop w) = heads_requests w"
  "connect_listeners (stop w) = connect_listeners w"
  "sync_listeners (stop w) = sync_listeners w"
  "connects_keyed w \<Longrightarrow> connects_keyed (stop w)"
  by (simp_all add: stop_def)

lemma createListeners_measures [simp]:
  "detections (createListeners d w) = detections w"
  "heads_requests (createListeners d w) = heads_requests w"
  "connect_listeners (createListeners d w) = connect_listeners w + 1"
  "sync_listeners (createListeners d w) = sync_listeners w"
  "connects_keyed (createListeners d w) = connects_keyed w"
  "syncingSubscriptionId (createListeners d w) = syncingSubscriptionId w"
  "newHeadsSubscriptionId (createListeners d w) = newHeadsSubscriptionId w"
  by (simp_all add: createListeners_def)

lemma start_measures [simp]:
  "detections (snd (start config d newConfig w)) = detections w"
  "heads_requests (snd (start config d newConfig w)) = heads_requests w"
  "connect_listeners (snd (start config d newConfig w)) =
     connect_listeners w + (if nullish newConfig then 0 else 1)"
  "sync_listeners (snd (start config d newConfig w)) = sync_listeners w"
  "connects_keyed (snd (start config d newConfig w)) = connects_keyed w"
  "syncingSubscriptionId (snd (start config d newConfig w)) = syncingSubscriptionId w"
  "newHeadsSubscriptionId (snd (start config d newConfig w)) = newHeadsSubscriptionId w"
  by (simp_all add: start_def Let_def)

lemma connectSettled_measures [simp]:
  "detections (connectSettled d w) = detections w + 1"
  "heads_requests (connectSettled d w) = heads_requests w"
  "connect_listeners (connectSettled d w) = connect_listeners w"
  "sync_listeners (connectSettled d w) = sync_listeners w"
  "connects_keyed (connectSettled d w) = connects_keyed w"
  "syncingSubscriptionId (connectSettled d w) = syncingSubscriptionId w"
  "newHeadsSubscriptionId (connectSettled d w) = newHeadsSubscriptionId w"
  by (simp_all add: connectSettled_def)

lemma updatePeerCount_measures [simp]:
  "detections (updatePeerCount d w) = detections w"
  "heads_requests (updatePeerCount d w) = heads_requests w"
  "connect_listeners (updatePeerCount d w) = connect_listeners w"
  "sync_listeners (updatePeerCount d w) = sync_listeners w"
  "connects_keyed (updatePeerCount d w) = connects_keyed w"
  "syncingSubscriptionId (updatePeerCount d w) = syncingSubscriptionId w"
  "newHeadsSubscriptionId (updatePeerCount d w) = newHeadsSubscriptionId w"
  by (simp_all add: updatePeerCount_def)

lemma startNewHeadsSubscription_measures [simp]:
  "detections (startNewHeadsSubscription d w) = detections w"
  "heads_requests (startNewHeadsSubscription d w) = heads_requests w + 1"
  "connect_listeners (startNewHeadsSubscription d w) = connect_listeners w"
  "sync_listeners (startNewHeadsSubscription d w) = sync_listeners w"
  "connects_keyed (startNewHeadsSubscription d w) = connects_keyed w"
  "syncingSubscriptionId (startNewHeadsSubscription d w) = syncingSubscriptionId w"
  "newHeadsSubscriptionId (startNewHeadsSubscription d w) = newHeadsSubscriptionId w"
  by (simp_all add: startNewHeadsSubscription_def)

lemma startSyncingSubscription_measures [simp]:
  "detections (startSyncingSubscription d w) = detections w + 1"
  "heads_requests (startSyncingSubscription d w) = heads_requests w"
  "connect_listeners (startSyncingSubscription d w) = connect_listeners w"
  "sync_listeners (startSyncingSubscription d w) = sync_listeners w"
  "connects_keyed (startSyncingSubscription d w) = connects_keyed w"
  "syncingSubscriptionId (startSyncingSubscription d w) = syncingSubscriptionId w"
  "newHeadsSubscriptionId (startSyncingSubscription d w) = newHeadsSubscriptionId w"
  by (simp_all add: startSyncingSubscription_def)

lemma onConnect_measures [simp]:
  "detections (onConnect d w) = detections w + 1"
  "heads_requests (onConnect d w) = heads_requests w"
  "connect_listeners (onConnect d w) = connect_listeners w"
  "sync_listeners (onConnect d w) = sync_listeners w"
  "connects_keyed (onConnect d w) = connects_keyed w"
  "syncingSubscriptionId (onConnect d w) = syncingSubscriptionId w"
  "newHeadsSubscriptionId (onConnect d w) = newHeadsSubscriptionId w"
  by (simp_all add: onConnect_def)

subsection \<open>Listeners\<close>

lemma feeds_exclusive_less: "feeds_exclusive b w \<Longrightarrow> b' \<le> b \<Longrightarrow> feeds_exclusive b' w"
  by (rule feeds_exclusive_frame [of b w]) (simp_all add: feeds_exclusive_def)

lemma onSyncingSubscriptionResult_other:
  "v \<noteq> JBool False \<Longrightarrow>
   detections (snd (onSyncingSubscriptionResult v d w)) = detections w \<and>
   heads_requests (snd (onSyncingSubscriptionResult v d w)) = heads_requests w \<and>
   connect_listeners (snd (onSyncingSubscriptionResult v d w)) = connect_listeners w \<and>
   sync_listeners (snd (onSyncingSubscriptionResult v d w)) = sync_listeners w \<and>
   connects_keyed (snd (onSyncingSubscriptionResult v d w)) = connects_keyed w \<and>
   syncingSubscriptionId (snd (onSyncingSubscriptionResult v d w)) = syncingSubscriptionId w \<and>
   newHeadsSubscriptionId (snd (onSyncingSubscriptionResult v d w)) = newHeadsSubscriptionId w"
  by (simp add: onSyncingSubscriptionResult_def Let_def)

lemma onSyncingSubscriptionResult_false:
  "detections (snd (onSyncingSubscriptionResult (JBool False) d w)) = detections w \<and>
   heads_requests (snd (onSyncingSubscriptionResult (JBool False) d w)) = heads_requests w + 1 \<and>
   connect_listeners (snd (onSyncingSubscriptionResult (JBool False) d w)) = connect_listeners w \<and>
   sync_listeners (snd (onSyncingSubscriptionResult (JBool False) d w)) = sync_listeners w \<and>
   (connects_keyed w \<longrightarrow> connects_keyed (snd (onSyncingSubscriptionResult (JBool False) d w))) \<and>
   \<not> truthy (syncingSubscriptionId (snd (onSyncingSubscriptionResult (JBool False) d w))) \<and>
   newHeadsSubscriptionId (snd (onSyncingSubscriptionResult (JBool False) d w)) =
     newHeadsSubscriptionId w"
  by (simp add: onSyncingSubscriptionResult_def)

lemma onNewHeadsSubscriptionResult_measures [simp]:
  "detections (snd (onNewHeadsSubscriptionResult v d w)) = detections w"
  "heads_requests (snd (onNewHeadsSubscriptionResult v d w)) = heads_requests w"
  "connect_listeners (snd (onNewHeadsSubscriptionResult v d w)) = connect_listeners w"
  "sync_listeners (snd (onNewHeadsSubscriptionResult v d w)) = sync_listeners w"
  "connects_keyed (snd (onNewHeadsSubscriptionResult v d w)) = connects_keyed w"
  "syncingSubscriptionId (snd (onNewHeadsSubscriptionResult v d w)) = syncingSubscriptionId w"
  "newHeadsSubscriptionId (snd (onNewHeadsSubscriptionResult v d w)) = newHeadsSubscriptionId w"
  by (simp_all add: onNewHeadsSubscriptionResult_def Let_def)

lemma call_listener_other:
  assumes "\<not> is_connect_fn f" and "is_sync_fn f \<longrightarrow> v \<noteq> JBool False"
  shows "detections (snd (call_listener f v w)) = detections w \<and>
   heads_requests (snd (call_listener f v w)) = heads_requests w \<and>
   connect_listeners (snd (call_listener f v w)) = connect_listeners w \<and>
   sync_listeners (snd (call_listener f v w)) = sync_listeners w \<and>
   connects_keyed (snd (call_listener f v w)) = connects_keyed w \<and>
   syncingSubscriptionId (snd (call_listener f v w)) = syncingSubscriptionId w \<and>
   newHeadsSubscriptionId (snd (call_listener f v w)) = newHeadsSubscriptionId w"
proof (cases f)
  case (Proto h)
  then show ?thesis
    by (cases h) simp_all
next
  case (Arrow i h d)
  then show ?thesis
    using assms onSyncingSubscriptionResult_other [of v d w]
    by (cases h)
      (simp_all add: onStarting_def onStarted_def onStopping_def onStopped_def
        onDisconnect_def onError_def)
qed

lemma call_listener_connect:
  assumes "is_connect_fn f"
  shows "fst (call_listener f v w) = None \<and>
   detections (snd (call_listener f v w)) = detections w + 1 \<and>
   heads_requests (snd (call_listener f v w)) = heads_requests w \<and>
   connect_listeners (snd (call_listener f v w)) = connect_listeners w \<and>
   sync_listeners (snd (call_listener f v w)) = sync_listeners w \<and>
   connects_keyed (snd (call_listener f v w)) = connects_keyed w \<and>
   syncingSubscriptionId (snd (call_listener f v w)) = syncingSubscriptionId w \<and>
   newHeadsSubscriptionId (snd (call_listener f v w)) = newHeadsSubscriptionId w"
proof (cases f)
  case (Proto h)
  then show ?thesis
    using assms by simp
next
  case (Arrow i h d)
  then show ?thesis
    using assms by simp
qed

lemma call_listener_sync_false:
  assumes "is_sync_fn f"
  shows "detections (snd (call_listener f (JBool False) w)) = detections w \<and>
   heads_requests (snd (call_listener f (JBool False) w)) = heads_requests w + 1 \<and>
   connect_listeners (snd (call_listener f (JBool False) w)) = connect_listeners w \<and>
   sync_listeners (snd (call_listener f (JBool False) w)) = sync_listeners w \<and>
   (connects_keyed w \<longrightarrow> connects_keyed (snd (call_listener f (JBool False) w))) \<and>
   \<not> truthy (syncingSubscriptionId (snd (call_listener f (JBool False) w))) \<and>
   newHeadsSubscriptionId (snd (call_listener f (JBool False) w)) = newHeadsSubscriptionId w"
proof (cases f)
  case (Proto h)
  then show ?thesis
    using assms by simp
next
  case (Arrow i h d)
  then show ?thesis
    using assms onSyncingSubscriptionResult_false [of d w] by simp
qed

lemma connect_fn_not_sync: "is_connect_fn f \<Longrightarrow> \<not> is_sync_fn f"
  by (cases f) auto

lemma feeds_exclusive_keyed: "feeds_exclusive b w \<Longrightarrow> connects_keyed w"
  by (simp add: feeds_exclusive_def)

lemma call_listener_exclusive:
  assumes ex: "feeds_exclusive (b + (if is_connect_fn f then 1 else 0)) w"
    and sl: "is_sync_fn f \<longrightarrow> 0 < sync_listeners w"
  shows "feeds_exclusive b (snd (call_listener f v w)) \<and>
    connect_listeners (snd (call_listener f v w)) = connect_listeners w \<and>
    sync_listeners (snd (call_listener f v w)) = sync_listeners w"
proof -
  consider (connect) "is_connect_fn f"
    | (handoff) "\<not> is_connect_fn f" "is_sync_fn f" "v = JBool False"
    | (other) "\<not> is_connect_fn f" "is_sync_fn f \<longrightarrow> v \<noteq> JBool False"
    by blast
  then show ?thesis
  proof cases
    case connect
    note c = call_listener_connect [OF connect, of v w]
    have e1: "feeds_exclusive (b + 1) w"
      using ex connect by simp
    have "feeds_exclusive b (snd (call_listener f v w))"
      by (rule feeds_exclusive_frame [OF e1])
        (use c feeds_exclusive_keyed [OF e1] in simp_all)
    then show ?thesis
      using c by simp
  next
    case handoff
    note h = call_listener_sync_false [OF handoff(2), of w]
    have e: "feeds_exclusive b w"
      using ex handoff(1) by simp
    have "\<not> feeds_idle w"
      using sl handoff(2) by (simp add: feeds_idle_def)
    then have z: "detections w + b = 0"
      using e by (auto simp: feeds_exclusive_def split: if_splits)
    have "feeds_exclusive b (snd (call_listener f (JBool False) w))"
      using e h z by (simp add: feeds_exclusive_def)
    then show ?thesis
      using h handoff(3) by simp
  next
    case other
    note o = call_listener_other [OF other, of w]
    have e0: "feeds_exclusive b w"
      using ex other(1) by simp
    have "feeds_exclusive b (snd (call_listener f v w))"
      by (rule feeds_exclusive_frame [OF e0])
        (use o feeds_exclusive_keyed [OF e0] in simp_all)
    then show ?thesis
      using o by simp
  qed
qed

lemma call_listeners_exclusive:
  "feeds_exclusive (b + length (filter is_connect_fn fs)) w \<Longrightarrow>
   (\<exists>f\<in>set fs. is_sync_fn f) \<longrightarrow> 0 < sync_listeners w \<Longrightarrow>
   feeds_exclusive b (snd (call_listeners fs v w)) \<and>
   connect_listeners (snd (call_listeners fs v w)) = connect_listeners w"
proof (induction fs arbitrary: w)
  case Nil
  then show ?case by simp
next
  case (Cons f fs)
  let ?n = "length (filter is_connect_fn fs)"
  obtain r w1 where c: "call_listener f v w = (r, w1)"
    by (cases "call_listener f v w")
  have "feeds_exclusive ((b + ?n) + (if is_connect_fn f then 1 else 0)) w"
    using Cons.prems(1) by (cases "is_connect_fn f") simp_all
  moreover have "is_sync_fn f \<longrightarrow> 0 < sync_listeners w"
    using Cons.prems(2) by simp
  ultimately have one: "feeds_exclusive (b + ?n) w1 \<and>
      connect_listeners w1 = connect_listeners w \<and> sync_listeners w1 = sync_listeners w"
    using call_listener_exclusive [of "b + ?n" f w v] c by simp
  show ?case
  proof (cases r)
    case None
    have "(\<exists>f\<in>set fs. is_sync_fn f) \<longrightarrow> 0 < sync_listeners w1"
      using Cons.prems(2) one by simp
    then have "feeds_exclusive b (snd (call_listeners fs v w1)) \<and>
        connect_listeners (snd (call_listeners fs v w1)) = connect_listeners w1"
      using Cons.IH [of w1] one by simp
    then show ?thesis
      using c None one by simp
  next
    case (Some e)
    have "feeds_exclusive (b + ?n) w1"
      using one by simp
    then have "feeds_exclusive b w1"
      by (rule feeds_exclusive_less) simp
    then show ?thesis
      using c Some one by simp
  qed
qed

lemma listeners_of_sync:
  assumes "\<exists>f\<in>set (listeners_of key w). is_sync_fn f"
  shows "0 < sync_listeners w"
proof -
  obtain f where f: "(key, f) \<in> set (listeners w)" "is_sync_fn f"
    using assms by (auto simp: listeners_of_def)
  then have "(key, f) \<in> set (filter (\<lambda>(k, f). is_sync_fn f) (listeners w))"
    by simp
  then have "filter (\<lambda>(k, f). is_sync_fn f) (listeners w) \<noteq> []"
    by (metis empty_iff empty_set)
  then show ?thesis
    by (simp add: sync_listeners_def)
qed

lemma count_connect_of_key:
  "length (filter is_connect_fn (map snd (filter (\<lambda>(k, f). k = key) xs)))
     \<le> length (filter (\<lambda>(k, f). is_connect_fn f) xs)"
proof (induction xs)
  case Nil
  then show ?case by simp
next
  case (Cons x xs)
  obtain k f where "x = (k, f)"
    by (cases x)
  then show ?case
    using Cons.IH by simp
qed

lemma listeners_of_connect_count:
  "length (filter is_connect_fn (listeners_of key w)) \<le> connect_listeners w"
  using count_connect_of_key [of key "listeners w"]
  by (simp add: listeners_of_def connect_listeners_def)

lemma no_connect_of_other_key:
  "list_all (\<lambda>(k, f). \<not> is_connect_fn f \<or> k = JStr ''connect'') xs \<Longrightarrow>
   key \<noteq> JStr ''connect'' \<Longrightarrow>
   filter is_connect_fn (map snd (filter (\<lambda>(k, f). k = key) xs)) = []"
proof (induction xs)
  case Nil
  then show ?case by simp
next
  case (Cons x xs)
  obtain k f where "x = (k, f)"
    by (cases x)
  then show ?case
    using Cons by auto
qed

lemma listeners_of_no_connect:
  assumes "connects_keyed w" and "key \<noteq> JStr ''connect''"
  shows "filter is_connect_fn (listeners_of key w) = []"
  using no_connect_of_other_key [of "listeners w" key] assms
  by (simp add: listeners_of_def connects_keyed_def)

subsection \<open>Every event keeps the feeds exclusive\<close>

lemma emit_exclusive:
  assumes ex: "feeds_exclusive b w" and key: "key \<noteq> JStr ''connect''"
  shows "feeds_exclusive b (snd (geth_emit key v w)) \<and>
    connect_listeners (snd (geth_emit key v w)) = connect_listeners w"
proof -
  have n: "filter is_connect_fn (listeners_of key w) = []"
    using feeds_exclusive_keyed [OF ex] key by (rule listeners_of_no_connect)
  have "feeds_exclusive (b + length (filter is_connect_fn (listeners_of key w))) w"
    using ex n by simp
  moreover have "(\<exists>f\<in>set (listeners_of key w). is_sync_fn f) \<longrightarrow> 0 < sync_listeners w"
    using listeners_of_sync by blast
  ultimately show ?thesis
    unfolding geth_emit_def by (rule call_listeners_exclusive)
qed

lemma emit_connect_exclusive:
  assumes ex: "feeds_exclusive (connect_listeners w + s) w"
  shows "feeds_exclusive 0 (snd (geth_emit key v w))"
proof -
  have "length (filter is_connect_fn (listeners_of key w)) \<le> connect_listeners w + s"
    using listeners_of_connect_count [of key w] by simp
  then have "feeds_exclusive (0 + length (filter is_connect_fn (listeners_of key w))) w"
    using feeds_exclusive_less [OF ex] by simp
  moreover have "(\<exists>f\<in>set (listeners_of key w). is_sync_fn f) \<longrightarrow> 0 < sync_listeners w"
    using listeners_of_sync by blast
  ultimately have "feeds_exclusive 0 (snd (call_listeners (listeners_of key w) v w)) \<and>
      connect_listeners (snd (call_listeners (listeners_of key w) v w)) = connect_listeners w"
    by (rule call_listeners_exclusive)
  then show ?thesis
    by (simp add: geth_emit_def)
qed

lemma start_exclusive:
  assumes ex: "feeds_exclusive (if c = 0 then 0 else connect_listeners w + s) w"
    and s: "0 < s"
  shows "feeds_exclusive
    (if c = 0 then 0 else connect_listeners (snd (start config d newConfig w)) + (s - 1))
    (snd (start config d newConfig w))"
  by (rule feeds_exclusive_frame [OF ex]) (use s feeds_exclusive_keyed [OF ex] in simp_all)

lemma stop_exclusive:
  assumes ex: "feeds_exclusive b w"
  shows "feeds_exclusive b (stop w)"
  by (rule feeds_exclusive_frame [OF ex]) (use feeds_exclusive_keyed [OF ex] in simp_all)

lemma fire_exclusive:
  assumes ex: "feeds_exclusive b w"
  shows "feeds_exclusive b (snd (step (Fire i) w)) \<and>
    connect_listeners (snd (step (Fire i) w)) = connect_listeners w"
proof (cases "map_of (timers w) i")
  case None
  then show ?thesis
    using ex by simp
next
  case (Some t)
  show ?thesis
  proof (cases t)
    case (PeerCountTick d)
    have "feeds_exclusive b (updatePeerCount d w)"
      by (rule feeds_exclusive_frame [OF ex]) (use feeds_exclusive_keyed [OF ex] in simp_all)
    then show ?thesis
      using Some PeerCountTick by simp
  next
    case (ConnectSettle d)
    have lt: "detections (drop_timer i w) < detections w"
      using Some ConnectSettle by (simp add: drop_timer_settle)
    have "feeds_exclusive b (connectSettled d (drop_timer i w))"
      by (rule feeds_exclusive_frame [OF ex]) (use lt feeds_exclusive_keyed [OF ex] in simp_all)
    then show ?thesis
      using Some ConnectSettle by simp
  qed
qed

lemma reject_exclusive:
  assumes ex: "feeds_exclusive b w"
  shows "feeds_exclusive b (snd (step (Reject r e) w)) \<and>
    connect_listeners (snd (step (Reject r e) w)) = connect_listeners w"
proof (cases "map_of (pending w) r")
  case None
  then show ?thesis
    using ex by simp
next
  case (Some k)
  have "feeds_exclusive b (emit_effect (UnhandledRejection e) (drop_pending r w))"
    by (rule feeds_exclusive_frame [OF ex]) (use feeds_exclusive_keyed [OF ex] in simp_all)
  then show ?thesis
    using Some by simp
qed

lemma drop_pending_heads_request:
  assumes "map_of (pending w) r = Some k" and "is_heads_request k"
  shows "0 < heads_requests w"
proof -
  have "length (filter (\<lambda>(j, k). is_heads_request k) (filter (\<lambda>(j, k). j \<noteq> r) (pending w)))
      < length (filter (\<lambda>(j, k). is_heads_request k) (pending w))"
    using assms by (rule count_drop_key)
  then have "0 < length (filter (\<lambda>(j, k). is_heads_request k) (pending w))"
    by linarith
  then show ?thesis
    unfolding heads_requests_def .
qed

lemma resolve_exclusive:
  assumes ex: "feeds_exclusive b w"
  shows "feeds_exclusive b (snd (step (Resolve r v) w)) \<and>
    connect_listeners (snd (step (Resolve r v) w)) = connect_listeners w"
proof (cases "map_of (pending w) r")
  case None
  then show ?thesis
    using ex by simp
next
  case (Some k)
  let ?w0 = "drop_pending r w"
  note keyed = feeds_exclusive_keyed [OF ex]
  have le: "detections ?w0 \<le> detections w" "heads_requests ?w0 \<le> heads_requests w"
    by simp_all
  show ?thesis
  proof (cases k)
    case (StartSubscriptionsAwait d)
    have lt: "detections ?w0 < detections w"
      using Some StartSubscriptionsAwait by (simp add: drop_pending_detection)
    show ?thesis
    proof (cases "v = JBool False")
      case True
      have "feeds_exclusive b (startNewHeadsSubscription d ?w0)"
        using ex lt le(2) by (auto simp: feeds_exclusive_def feeds_idle_def split: if_splits)
      then show ?thesis
        using Some StartSubscriptionsAwait True by simp
    next
      case False
      have "feeds_exclusive b (startSyncingSubscription d ?w0)"
        by (rule feeds_exclusive_frame [OF ex]) (use keyed lt in simp_all)
      then show ?thesis
        using Some StartSubscriptionsAwait False by simp
    qed
  next
    case (SetLastBlockThen d)
    have "feeds_exclusive b (snd (step (Resolve r v) w))"
      by (rule feeds_exclusive_frame [OF ex]) (use keyed Some SetLastBlockThen in simp_all)
    then show ?thesis
      using Some SetLastBlockThen by simp
  next
    case (NewHeadsSubscribeThen d)
    have hr: "0 < heads_requests w"
      using Some NewHeadsSubscribeThen by (simp add: drop_pending_heads_request)
    then have dz: "detections w + b = 0"
      using ex by (auto simp: feeds_exclusive_def feeds_idle_def split: if_splits)
    have sf: "\<not> truthy (syncingSubscriptionId w)"
      using ex dz hr by (auto simp: feeds_exclusive_def)
    have d0: "detections ?w0 = 0"
      using drop_pending_measures(1) [of r w] dz by linarith
    have "feeds_exclusive b
        (geth_on v OnNewHeadsSubscriptionResult d (?w0\<lparr>newHeadsSubscriptionId := v\<rparr>))"
      using keyed dz sf d0 by (simp add: feeds_exclusive_def)
    then show ?thesis
      using Some NewHeadsSubscribeThen by simp
  next
    case (SyncingSubscribeAwait d)
    have lt: "detections ?w0 < detections w"
      using Some SyncingSubscribeAwait by (simp add: drop_pending_detection)
    have "feeds_exclusive b
        (geth_on v OnSyncingSubscriptionResult d (?w0\<lparr>syncingSubscriptionId := v\<rparr>))"
      using ex lt le(2) by (auto simp: feeds_exclusive_def feeds_idle_def split: if_splits)
    then show ?thesis
      using Some SyncingSubscribeAwait by simp
  next
    case (UpdatePeerCountAwait d)
    have "feeds_exclusive b (snd (step (Resolve r v) w))"
      by (rule feeds_exclusive_frame [OF ex]) (use keyed Some UpdatePeerCountAwait in simp_all)
    then show ?thesis
      using Some UpdatePeerCountAwait by simp
  next
    case Dropped
    have "feeds_exclusive b (snd (step (Resolve r v) w))"
      by (rule feeds_exclusive_frame [OF ex]) (use keyed Some Dropped in simp_all)
    then show ?thesis
      using Some Dropped by simp
  qed
qed

lemma step_one_feed:
  assumes inv: "one_feed c s w"
    and con: "is_connect_event e \<longrightarrow> 0 < c"
    and sta: "is_start_event e \<longrightarrow> 0 < s"
  shows "one_feed (c - (if is_connect_event e then 1 else 0))
    (s - (if is_start_event e then 1 else 0)) (snd (step e w))"
proof -
  let ?b = "if c = 0 then 0 else connect_listeners w + s"
  have c1: "c \<le> 1" and ex: "feeds_exclusive ?b w"
    using inv by (simp_all add: one_feed_def)
  show ?thesis
  proof (cases e)
    case (CallStart config d newConfig)
    have "0 < s"
      using sta CallStart by simp
    then show ?thesis
      using c1 CallStart start_exclusive [OF ex, of config d newConfig]
      by (cases "c = 0"; cases "nullish newConfig") (simp_all add: one_feed_def)
  next
    case CallStop
    then show ?thesis
      using c1 stop_exclusive [OF ex] by (cases "c = 0") (simp_all add: one_feed_def)
  next
    case (Emit key v)
    show ?thesis
    proof (cases "key = JStr ''connect''")
      case True
      then have "c = 1"
        using con c1 Emit by simp
      then have "feeds_exclusive (connect_listeners w + s) w"
        using ex by simp
      then have "feeds_exclusive 0 (snd (geth_emit key v w))"
        by (rule emit_connect_exclusive)
      then show ?thesis
        using Emit True \<open>c = 1\<close> by (simp add: one_feed_def)
    next
      case False
      then show ?thesis
        using c1 Emit emit_exclusive [OF ex False, of v]
        by (cases "c = 0") (simp_all add: one_feed_def)
    qed
  next
    case (Fire i)
    then show ?thesis
      using c1 fire_exclusive [OF ex, of i]
      by (cases "c = 0") (simp_all add: one_feed_def del: step.simps)
  next
    case (Resolve r v)
    then show ?thesis
      using c1 resolve_exclusive [OF ex, of r v]
      by (cases "c = 0") (simp_all add: one_feed_def del: step.simps)
  next
    case (Reject r v)
    then show ?thesis
      using c1 reject_exclusive [OF ex, of r v]
      by (cases "c = 0") (simp_all add: one_feed_def del: step.simps)
  qed
qed

lemma run_one_feed:
  "one_feed c s w \<Longrightarrow> length (filter is_connect_event es) \<le> c \<Longrightarrow>
   length (filter is_start_event es) \<le> s \<Longrightarrow>
   one_feed (c - length (filter is_connect_event es)) (s - length (filter is_start_event es))
     (run es w)"
proof (induction es arbitrary: c s w)
  case Nil
  then show ?case by simp
next
  case (Cons e es)
  let ?c = "c - (if is_connect_event e then 1 else 0)"
  let ?s = "s - (if is_start_event e then 1 else 0)"
  have "one_feed ?c ?s (snd (step e w))"
    using Cons.prems by (intro step_one_feed) (auto split: if_splits)
  moreover have "length (filter is_connect_event es) \<le> ?c"
    using Cons.prems(2) by (auto split: if_splits)
  moreover have "length (filter is_start_event es) \<le> ?s"
    using Cons.prems(3) by (auto split: if_splits)
  ultimately have "one_feed (?c - length (filter is_connect_event es))
      (?s - length (filter is_start_event es)) (run es (snd (step e w)))"
    by (rule Cons.IH)
  then show ?case
    by (cases "is_connect_event e"; cases "is_start_event e") simp_all
qed

lemma one_feed_init: "one_feed 1 1 init"
  by (simp add: one_feed_def feeds_exclusive_def feeds_idle_def measure_defs init_def)

lemma one_feed_handles:
  "one_feed c s w \<Longrightarrow>
   \<not> (truthy (syncingSubscriptionId w) \<and> truthy (newHeadsSubscriptionId w))"
  by (auto simp: one_feed_def feeds_exclusive_def feeds_idle_def split: if_splits)

text \<open>Against claim C5 as stated. The service holds a header subscription under the
  id \<^verbatim>\<open>0x1\<close>; the node connects again and now reports that it is syncing, so the
  detection subscribes to the sync feed under \<^verbatim>\<open>0x2\<close>. Both handles are set, and they
  stay set while further events of both feeds and a poller tick are handled: this is no
  handoff.\<close>

theorem both_feeds_after_second_connect:
  "syncingSubscriptionId
     (run [Emit (JStr ''connect'') JUndefined, Fire 13, Resolve 15 (JObj [(''currentBlock'', JStr ''0x10'')]),
           Resolve 16 (JStr ''0x2'')] sample_heads) = JStr ''0x2'' \<and>
   newHeadsSubscriptionId
     (run [Emit (JStr ''connect'') JUndefined, Fire 13, Resolve 15 (JObj [(''currentBlock'', JStr ''0x10'')]),
           Resolve 16 (JStr ''0x2'')] sample_heads) = JStr ''0x1'' \<and>
   syncingSubscriptionId
     (run [Emit (JStr ''connect'') JUndefined, Fire 13, Resolve 15 (JObj [(''currentBlock'', JStr ''0x10'')]),
           Resolve 16 (JStr ''0x2''), Emit (JStr ''0x1'') sample_header,
           Emit (JStr ''0x2'') sample_progress, Fire 0] sample_heads) = JStr ''0x2'' \<and>
   newHeadsSubscriptionId
     (run [Emit (JStr ''connect'') JUndefined, Fire 13, Resolve 15 (JObj [(''currentBlock'', JStr ''0x10'')]),
           Resolve 16 (JStr ''0x2''), Emit (JStr ''0x1'') sample_header,
           Emit (JStr ''0x2'') sample_progress, Fire 0] sample_heads) = JStr ''0x1''"
  by code_simp

text \<open>Claim C5, amended. In every state reached from the initial one by events with at
  most one call of \<^verbatim>\<open>start\<close> and at most one \<^verbatim>\<open>connect\<close> event among them, the sync
  handle and the header handle are never both active (truthy, the test the unsubscribe
  helpers apply): the handoff clears the sync handle in the step that requests the header
  subscription, and the header handle is set only when that request is answered.\<close>

theorem one_connect_one_feed:
  assumes "length (filter is_start_event es) \<le> 1"
    and "length (filter is_connect_event es) \<le> 1"
  shows "\<not> (truthy (syncingSubscriptionId (run es init)) \<and>
            truthy (newHeadsSubscriptionId (run es init)))"
proof -
  have "one_feed (1 - length (filter is_connect_event es))
      (1 - length (filter is_start_event es)) (run es init)"
    using one_feed_init assms(2) assms(1) by (rule run_one_feed)
  then show ?thesis
    by (rule one_feed_handles)
qed

theorem one_connect_one_feed_witness:
  "length (filter is_start_event
     [CallStart sample_config 0 sample_config, Emit (JStr ''connect'') JUndefined, Fire 8,
      Resolve 10 (JBool True), Resolve 11 (JStr ''0x1''), Emit (JStr ''0x1'') (JBool False),
      Resolve 13 (JStr ''0x2'')]) \<le> 1 \<and>
   length (filter is_connect_event
     [CallStart sample_config 0 sample_config, Emit (JStr ''connect'') JUndefined, Fire 8,
      Resolve 10 (JBool True), Resolve 11 (JStr ''0x1''), Emit (JStr ''0x1'') (JBool False),
      Resolve 13 (JStr ''0x2'')]) \<le> 1 \<and>
   \<not> (truthy (syncingSubscriptionId (run
     [CallStart sample_config 0 sample_config, Emit (JStr ''connect'') JUndefined, Fire 8,
      Resolve 10 (JBool True), Resolve 11 (JStr ''0x1''), Emit (JStr ''0x1'') (JBool False),
      Resolve 13 (JStr ''0x2'')] init)) \<and>
     truthy (newHeadsSubscriptionId (run
     [CallStart sample_config 0 sample_config, Emit (JStr ''connect'') JUndefined, Fire 8,
      Resolve 10 (JBool True), Resolve 11 (JStr ''0x1''), Emit (JStr ''0x1'') (JBool False),
      Resolve 13 (JStr ''0x2'')] init))) \<and>
   newHeadsSubscriptionId (run
     [CallStart sample_config 0 sample_config, Emit (JStr ''connect'') JUndefined, Fire 8,
      Resolve 10 (JBool True), Resolve 11 (JStr ''0x1''), Emit (JStr ''0x1'') (JBool False),
      Resolve 13 (JStr ''0x2'')] init) = JStr ''0x2''"
proof -
  let ?es = "[CallStart sample_config 0 sample_config, Emit (JStr ''connect'') JUndefined,
      Fire 8, Resolve 10 (JBool True), Resolve 11 (JStr ''0x1''),
      Emit (JStr ''0x1'') (JBool False), Resolve 13 (JStr ''0x2'')]"
  have s: "length (filter is_start_event ?es) \<le> 1"
    by simp
  have c: "length (filter is_connect_event ?es) \<le> 1"
    by simp
  have h: "newHeadsSubscriptionId (run ?es init) = JStr ''0x2''"
    by code_simp
  show ?thesis
    using s c h one_connect_one_feed [OF s c] by blast
qed

section \<open>Identifiers of calls in flight are fresh\<close>

lemma list_all_fresh_mono:
  "list_all (\<lambda>(i, k). i < (n::nat)) xs \<Longrightarrow> n \<le> m \<Longrightarrow> list_all (\<lambda>(i, k). i < m) xs"
  by (induction xs) auto

lemma pending_fresh_grow:
  assumes "pending_fresh w" and "next_id w \<le> next_id w'"
    and "pending w' = pending w \<or> pending w' = filter P (pending w) \<or>
         (\<exists>k. pending w' = pending w @ [(next_id w, k)] \<and> next_id w < next_id w')"
  shows "pending_fresh w'"
proof -
  have a: "list_all (\<lambda>(i, k). i < next_id w') (pending w)"
    using assms(1,2) unfolding pending_fresh_def by (rule list_all_fresh_mono)
  then have "list_all (\<lambda>(i, k). i < next_id w') (filter P (pending w))"
    by (simp add: list_all_iff)
  then show ?thesis
    using a assms(3) by (auto simp: pending_fresh_def)
qed

lemma prim_fresh [simp]:
  "pending_fresh w \<Longrightarrow> pending_fresh (emit_effect e w)"
  "pending_fresh w \<Longrightarrow> pending_fresh (dispatch_action d a w)"
  "pending_fresh w \<Longrightarrow> pending_fresh (geth_rpc m ps k w)"
  "pending_fresh w \<Longrightarrow> pending_fresh (geth_on key h d w)"
  "pending_fresh w \<Longrightarrow> pending_fresh (geth_removeListener key f w)"
  "pending_fresh w \<Longrightarrow> pending_fresh (set_timer t w)"
  "pending_fresh w \<Longrightarrow> pending_fresh (drop_timer j w)"
  "pending_fresh w \<Longrightarrow> pending_fresh (clearInterval p w)"
  "pending_fresh w \<Longrightarrow> pending_fresh (drop_pending r w)"
  "pending_fresh w \<Longrightarrow> pending_fresh (w\<lparr>syncingSubscriptionId := v\<rparr>)"
  "pending_fresh w \<Longrightarrow> pending_fresh (w\<lparr>newHeadsSubscriptionId := v\<rparr>)"
  "pending_fresh w \<Longrightarrow> pending_fresh (w\<lparr>peerCountInterval := p\<rparr>)"
  by (erule pending_fresh_grow [where P = "\<lambda>(j, k). j \<noteq> r"]; simp)+

lemma service_fresh [simp]:
  "pending_fresh w \<Longrightarrow> pending_fresh (createListeners d w)"
  "pending_fresh w \<Longrightarrow> pending_fresh (removeListeners w)"
  "pending_fresh w \<Longrightarrow> pending_fresh (unsubscribeSyncingSubscription w)"
  "pending_fresh w \<Longrightarrow> pending_fresh (unsubscribeNewHeadsSubscription w)"
  "pending_fresh w \<Longrightarrow> pending_fresh (startNewHeadsSubscription d w)"
  "pending_fresh w \<Longrightarrow> pending_fresh (startSyncingSubscription d w)"
  "pending_fresh w \<Longrightarrow> pending_fresh (updatePeerCount d w)"
  "pending_fresh w \<Longrightarrow> pending_fresh (onConnect d w)"
  "pending_fresh w \<Longrightarrow> pending_fresh (connectSettled d w)"
  "pending_fresh w \<Longrightarrow> pending_fresh (onStarting d w)"
  "pending_fresh w \<Longrightarrow> pending_fresh (onStarted d w)"
  "pending_fresh w \<Longrightarrow> pending_fresh (onStopping d w)"
  "pending_fresh w \<Longrightarrow> pending_fresh (onStopped d w)"
  "pending_fresh w \<Longrightarrow> pending_fresh (onDisconnect d w)"
  "pending_fresh w \<Longrightarrow> pending_fresh (onError v d w)"
  by (simp_all add: createListeners_def removeListeners_def unsubscribeSyncingSubscription_def
      unsubscribeNewHeadsSubscription_def startNewHeadsSubscription_def
      startSyncingSubscription_def updatePeerCount_def onConnect_def connectSettled_def
      onStarting_def onStarted_def onStopping_def onStopped_def onDisconnect_def onError_def)

lemma stop_fresh [simp]: "pending_fresh w \<Longrightarrow> pending_fresh (stop w)"
  by (simp add: stop_def)

lemma start_fresh [simp]:
  "pending_fresh w \<Longrightarrow> pending_fresh (snd (start config d newConfig w))"
  by (simp add: start_def Let_def)

lemma handlers_fresh [simp]:
  "pending_fresh w \<Longrightarrow> pending_fresh (snd (onNewHeadsSubscriptionResult v d w))"
  "pending_fresh w \<Longrightarrow> pending_fresh (snd (onSyncingSubscriptionResult v d w))"
  by (simp_all add: onNewHeadsSubscriptionResult_def onSyncingSubscriptionResult_def Let_def)

lemma resume_fresh [simp]: "pending_fresh w \<Longrightarrow> pending_fresh (snd (resume k v w))"
  by (cases k) simp_all

lemma call_listener_fresh [simp]:
  "pending_fresh w \<Longrightarrow> pending_fresh (snd (call_listener f v w))"
proof (cases f)
  case (Proto h)
  then show "pending_fresh w \<Longrightarrow> ?thesis"
    by (cases h) simp_all
next
  case (Arrow i h d)
  then show "pending_fresh w \<Longrightarrow> ?thesis"
    by (cases h) simp_all
qed

lemma call_listeners_fresh:
  "pending_fresh w \<Longrightarrow> pending_fresh (snd (call_listeners fs v w))"
proof (induction fs arbitrary: w)
  case Nil
  then show ?case by simp
next
  case (Cons f fs)
  obtain r w1 where c: "call_listener f v w = (r, w1)"
    by (cases "call_listener f v w")
  have f1: "pending_fresh w1"
    using call_listener_fresh [OF Cons.prems, of f v] c by simp
  show ?case
  proof (cases r)
    case None
    then show ?thesis
      using c Cons.IH [OF f1] by simp
  next
    case (Some e)
    then show ?thesis
      using c f1 by simp
  qed
qed

lemma step_fresh: "pending_fresh w \<Longrightarrow> pending_fresh (snd (step e w))"
proof (cases e)
  case (CallStart config d newConfig)
  then show "pending_fresh w \<Longrightarrow> ?thesis" by simp
next
  case CallStop
  then show "pending_fresh w \<Longrightarrow> ?thesis" by simp
next
  case (Emit key v)
  then show "pending_fresh w \<Longrightarrow> ?thesis"
    by (simp add: geth_emit_def call_listeners_fresh)
next
  case (Fire i)
  then show "pending_fresh w \<Longrightarrow> ?thesis"
    by (simp split: option.splits timer.splits)
next
  case (Resolve r v)
  assume fr: "pending_fresh w"
  show ?thesis
  proof (cases "map_of (pending w) r")
    case None
    then show ?thesis
      using fr Resolve by simp
  next
    case (Some k)
    obtain x w1 where c: "resume k v (drop_pending r w) = (x, w1)"
      by (cases "resume k v (drop_pending r w)")
    have "pending_fresh w1"
      using resume_fresh [of "drop_pending r w" k v] fr c by simp
    then show ?thesis
      using Resolve Some c by (cases x) simp_all
  qed
next
  case (Reject r v)
  then show "pending_fresh w \<Longrightarrow> ?thesis"
    by (simp split: option.splits)
qed

lemma run_fresh: "pending_fresh w \<Longrightarrow> pending_fresh (run es w)"
  by (induction es arbitrary: w) (simp_all add: step_fresh)

lemma pending_fresh_init: "pending_fresh init"
  by (simp add: pending_fresh_def init_def)

lemma pending_fresh_next_id: "pending_fresh w \<Longrightarrow> map_of (pending w) (next_id w) = None"
proof -
  assume "pending_fresh w"
  then have "next_id w \<notin> fst ` set (pending w)"
    by (auto simp: pending_fresh_def list_all_iff)
  then show ?thesis
    by (simp add: map_of_eq_None_iff)
qed

lemma reachable_next_id_unused: "map_of (pending (run es init)) (next_id (run es init)) = None"
  by (rule pending_fresh_next_id) (rule run_fresh, rule pending_fresh_init)

end
